theory Spec2Isabelle
  imports Complex_Main "HOL-Library.Sublist"
begin

section \<open>Strings and numbers of the host language\<close>

text \<open>
  A JavaScript string is a sequence of UTF-16 code units. The model takes the code units
  \<open>U+0000 .. U+00FF\<close> (the type \<^typ>\<open>char\<close>, read as Latin-1); strings with
  larger code units are outside the model. On this range \<open>String.prototype.toLowerCase\<close>
  maps \<open>A .. Z\<close> and \<open>U+00C0 .. U+00DE\<close> (without the multiplication sign \<open>U+00D7\<close>)
  to the code unit 32 above and leaves every other code unit alone, and two code units are
  equal under the \<open>i\<close> flag of a regular expression exactly when their lower-case
  forms are equal.
\<close>

definition toLowerChar :: "char \<Rightarrow> char" where
  "toLowerChar c =
     (let n = (of_char c :: nat)
      in if (65 \<le> n \<and> n \<le> 90) \<or> (192 \<le> n \<and> n \<le> 222 \<and> n \<noteq> 215)
         then char_of (n + 32) else c)"

definition toLowerCase :: "string \<Rightarrow> string" where
  "toLowerCase s = map toLowerChar s"

text \<open>\<open>s.includes(t)\<close> is \<^term>\<open>sublist t s\<close>; \<open>s.startsWith(t)\<close> is \<^term>\<open>prefix t s\<close>.\<close>

definition str_includes :: "string \<Rightarrow> string \<Rightarrow> bool" where
  "str_includes s t = sublist t s"

text \<open>The offset of the first occurrence of \<open>t\<close> in \<open>s\<close>, if there is one.\<close>

fun firstIndex :: "string \<Rightarrow> string \<Rightarrow> nat option" where
  "firstIndex t [] = (if t = [] then Some 0 else None)"
| "firstIndex t (c # cs) =
     (if prefix t (c # cs) then Some 0 else map_option Suc (firstIndex t cs))"

text \<open>\<open>s.indexOf(t)\<close>: the offset of the first occurrence, \<open>-1\<close> when there is none.\<close>

definition indexOf :: "string \<Rightarrow> string \<Rightarrow> int" where
  "indexOf s t = (case firstIndex t s of None \<Rightarrow> - 1 | Some i \<Rightarrow> int i)"

text \<open>
  A JavaScript number is an IEEE double: \<open>NaN\<close>, an infinity, or a finite value, which
  denotes a real number. The code only compares numbers and takes \<open>Math.min\<close> and
  \<open>Math.max\<close> of them; both are exact on the denoted reals.
\<close>

datatype number = NaN | NegInfinity | Finite real | PosInfinity

fun js_lt :: "number \<Rightarrow> number \<Rightarrow> bool" where
  "js_lt NaN _ = False"
| "js_lt _ NaN = False"
| "js_lt NegInfinity NegInfinity = False"
| "js_lt NegInfinity _ = True"
| "js_lt (Finite x) NegInfinity = False"
| "js_lt (Finite x) (Finite y) = (x < y)"
| "js_lt (Finite x) PosInfinity = True"
| "js_lt PosInfinity _ = False"

definition js_le :: "number \<Rightarrow> number \<Rightarrow> bool" where
  "js_le a b = (a \<noteq> NaN \<and> b \<noteq> NaN \<and> (js_lt a b \<or> a = b))"

definition Math_max :: "number \<Rightarrow> number \<Rightarrow> number" where
  "Math_max a b = (if a = NaN \<or> b = NaN then NaN else if js_lt a b then b else a)"

definition Math_min :: "number \<Rightarrow> number \<Rightarrow> number" where
  "Math_min a b = (if a = NaN \<or> b = NaN then NaN else if js_lt b a then b else a)"

section \<open>Suggestions\<close>

record Suggestion =
  reasoning :: string
  confidence :: number

record SuggestedLink = Suggestion +
  targetText :: string
  linkTarget :: string

datatype TagLocation = frontmatter | inline

record SuggestedTag = Suggestion +
  tag :: string
  location :: TagLocation

section \<open>The linking engine's filter\<close>

text \<open>
  The matches of \<open>/\[\[([^\]]+)\]\]/g\<close> in the order \<open>exec\<close> returns them: at an
  opening \<open>[[\<close> the class \<open>[^\]]+\<close> takes every code unit up to the next \<open>]\<close>; it
  has to take at least one and \<open>]]\<close> has to follow, otherwise the search moves on by one
  code unit. After a match the search continues behind it.
\<close>

function wikiLinkMatches :: "string \<Rightarrow> string list" where
  "wikiLinkMatches [] = []"
| "wikiLinkMatches (c # cs) =
     (if prefix ''[['' (c # cs) then
        (let inner = takeWhile (\<lambda>x. x \<noteq> CHR '']'') (drop 1 cs);
             rest = dropWhile (\<lambda>x. x \<noteq> CHR '']'') (drop 1 cs)
         in if inner \<noteq> [] \<and> prefix '']]'' rest
            then (''[['' @ inner @ '']]'') # wikiLinkMatches (drop 2 rest)
            else wikiLinkMatches cs)
      else wikiLinkMatches cs)"
  by pat_completeness auto
termination
proof (relation "measure length", goal_cases)
  case 1
  then show ?case by simp
next
  case (2 c cs inner rest)
  have "length (dropWhile (\<lambda>x. x \<noteq> CHR '']'') (drop 1 cs)) \<le> length cs"
    by (rule order_trans [OF length_dropWhile_le]) simp
  with 2 show ?case by simp
next
  case 3
  then show ?case by simp
next
  case 4
  then show ?case by simp
qed

text \<open>
  The body of the loop of \<open>filterLinks\<close> for one suggestion: \<open>True\<close> when the
  suggestion goes to \<open>toApply\<close>. The threshold is the engine's field
  \<open>confidenceThreshold\<close>.
\<close>

definition linkAccepted :: "number \<Rightarrow> string \<Rightarrow> string list \<Rightarrow> SuggestedLink \<Rightarrow> bool" where
  "linkAccepted confidenceThreshold content existingNotes link =
     (if js_lt (confidence link) confidenceThreshold then False
      else if \<not> List.member existingNotes (linkTarget link) then False
      else if str_includes content (''[['' @ linkTarget link @ '']]'') then False
      else if \<not> str_includes (toLowerCase content) (toLowerCase (targetText link)) then False
      else if list_ex (\<lambda>m. str_includes (toLowerCase m) (toLowerCase (targetText link)))
                (wikiLinkMatches content) then False
      else True)"

fun filterLinks ::
  "number \<Rightarrow> SuggestedLink list \<Rightarrow> string \<Rightarrow> string list
     \<Rightarrow> SuggestedLink list \<times> SuggestedLink list" where
  "filterLinks confidenceThreshold [] content existingNotes = ([], [])"
| "filterLinks confidenceThreshold (link # links) content existingNotes =
     (let (toApply, toSkip) = filterLinks confidenceThreshold links content existingNotes
      in if linkAccepted confidenceThreshold content existingNotes link
         then (link # toApply, toSkip) else (toApply, link # toSkip))"

section \<open>The text patch engine: links\<close>

text \<open>
  \<open>escapeRegex\<close> puts a backslash before every character that is special in a regular
  expression, so the two expressions built from \<open>targetText\<close> match the text itself,
  code unit by code unit, up to case.

  \<open>tailMatches s\<close>: the expression \<open>[^\]]*\]\]\<close> matches at the start of \<open>s\<close>.
  \<open>insideMatches t s\<close>: \<open>[^\]]*t[^\]]*\]\]\<close> matches at the start of \<open>s\<close>.
  \<open>alreadyLinkedRegex t s\<close>: \<open>\[\[[^\]]*t[^\]]*\]\]\<close> with the flag \<open>i\<close> matches
  somewhere in \<open>s\<close> (the result of \<open>test\<close>).
\<close>

fun tailMatches :: "string \<Rightarrow> bool" where
  "tailMatches [] = False"
| "tailMatches (c # cs) = (if c = CHR '']'' then prefix '']'' cs else tailMatches cs)"

fun insideMatches :: "string \<Rightarrow> string \<Rightarrow> bool" where
  "insideMatches t [] = False"
| "insideMatches t (c # cs) =
     ((prefix (toLowerCase t) (toLowerCase (c # cs)) \<and> tailMatches (drop (length t) (c # cs)))
      \<or> (c \<noteq> CHR '']'' \<and> insideMatches t cs))"

fun alreadyLinkedRegex :: "string \<Rightarrow> string \<Rightarrow> bool" where
  "alreadyLinkedRegex t [] = False"
| "alreadyLinkedRegex t (c # cs) =
     ((prefix ''[['' (c # cs) \<and> insideMatches t (drop 1 cs)) \<or> alreadyLinkedRegex t cs)"

text \<open>
  One round of the loop of \<open>applyLinks\<close>. The expression built from \<open>targetText\<close> with
  the flags \<open>gi\<close> is fresh, so \<open>exec\<close> returns the first occurrence up to case:
  its offset is that of the lower-case text in the lower-case document.
\<close>

definition applyLink :: "string \<Rightarrow> SuggestedLink \<Rightarrow> string" where
  "applyLink result link =
     (if str_includes result (''[['' @ linkTarget link @ '']]'')
         \<or> str_includes result (''[['' @ linkTarget link @ ''|'') then result
      else if alreadyLinkedRegex (targetText link) result then result
      else
        (case firstIndex (toLowerCase (targetText link)) (toLowerCase result) of
           None \<Rightarrow> result
         | Some index \<Rightarrow>
             (let match0 = take (length (targetText link)) (drop index result);
                  before = take index result;
                  after = drop (index + length match0) result;
                  displayText =
                    (if toLowerCase match0 \<noteq> toLowerCase (linkTarget link)
                     then linkTarget link @ ''|'' @ match0
                     else linkTarget link)
              in before @ ''[['' @ displayText @ '']]'' @ after)))"

text \<open>
  \<open>Array.prototype.sort\<close> is stable, and the comparison function \<open>posB - posA\<close>
  orders by descending offset of the first occurrence in the unpatched content (with
  \<open>-1\<close>, no occurrence, last): this is the stable insertion sort by the negated offset.
\<close>

definition sortedLinks :: "string \<Rightarrow> SuggestedLink list \<Rightarrow> SuggestedLink list" where
  "sortedLinks content links =
     sort_key (\<lambda>l. - indexOf (toLowerCase content) (toLowerCase (targetText l))) links"

definition applyLinks :: "string \<Rightarrow> SuggestedLink list \<Rightarrow> string" where
  "applyLinks content links = foldl applyLink content (sortedLinks content links)"

section \<open>The change log\<close>

datatype ChangeType = link_added | tag_added | content_modified | file_renamed | file_moved

datatype ChangeDetails =
    LinkAddedDetails string string
  | TagAddedDetails string TagLocation
  | ContentModifiedDetails string
  | FileRenamedDetails string string
  | FileMovedDetails string string

text \<open>
  The optional fields \<open>beforeContent?\<close>, \<open>afterContent?\<close> and \<open>endTime?\<close> are
  options: \<open>None\<close> is \<open>undefined\<close>. The field \<open>id\<close> is \<open>changeId\<close> and
  \<open>type\<close> is \<open>changeType\<close> here.
\<close>

record ChangeEntry =
  changeId :: string
  timestamp :: nat
  changeType :: ChangeType
  filePath :: string
  description :: string
  beforeContent :: "string option"
  afterContent :: "string option"
  details :: ChangeDetails

record ChangelogSession =
  sessionId :: string
  startTime :: nat
  endTime :: "nat option"
  changes :: "ChangeEntry list"

record ChangelogStorage =
  version :: nat
  sessions :: "ChangelogSession list"

text \<open>
  The state of \<open>ChangelogService\<close> and of the vault it writes to: the two fields of the
  service and the files of the vault. \<open>vaultFiles\<close> holds the text of every file but the
  changelog file, and \<open>changelogFile\<close> the content of the vault file
  \<open>.vault-steward/changelog.json\<close> (\<open>None\<close>: the file does not exist). That content is
  either the text \<open>JSON.stringify(this.storage, null, 2)\<close> that \<open>saveChangelog\<close> wrote,
  which is kept as the storage it is the text of (\<open>StorageText\<close>), or a text that
  somebody else wrote to the path (\<open>OtherText\<close>).
\<close>

datatype ChangelogContent = StorageText ChangelogStorage | OtherText string

record ServiceState =
  currentSession :: "ChangelogSession option"
  storage :: ChangelogStorage
  vaultFiles :: "string \<rightharpoonup> string"
  changelogFile :: "ChangelogContent option"

definition CHANGELOG_FOLDER :: string where
  "CHANGELOG_FOLDER = ''.vault-steward''"

definition CHANGELOG_FILE :: string where
  "CHANGELOG_FILE = ''changelog.json''"

definition MAX_SESSIONS :: nat where
  "MAX_SESSIONS = 50"

text \<open>The path \<open>`${CHANGELOG_FOLDER}/${CHANGELOG_FILE}`\<close> of the changelog file.\<close>

definition changelogPath :: string where
  "changelogPath = CHANGELOG_FOLDER @ ''/'' @ CHANGELOG_FILE"

text \<open>
  The vault. \<open>isFile\<close> is \<open>vault.getAbstractFileByPath(path) instanceof TFile\<close>, and
  \<open>setFile\<close> gives a path its content: \<open>Some\<close> text after \<open>vault.modify\<close> and
  \<open>vault.create\<close>, \<open>None\<close> after the file is deleted. A write to the path of the
  changelog file replaces the content of the changelog file.
\<close>

definition isFile :: "ServiceState \<Rightarrow> string \<Rightarrow> bool" where
  "isFile st path =
     (if path = changelogPath then changelogFile st \<noteq> None else vaultFiles st path \<noteq> None)"

definition setFile :: "string \<Rightarrow> string option \<Rightarrow> ServiceState \<Rightarrow> ServiceState" where
  "setFile path content st =
     (if path = changelogPath then st\<lparr>changelogFile := map_option OtherText content\<rparr>
      else st\<lparr>vaultFiles := (vaultFiles st)(path := content)\<rparr>)"

text \<open>The constructor; the files of the vault are given.\<close>

definition newService :: "(string \<rightharpoonup> string) \<Rightarrow> ServiceState" where
  "newService vault =
     \<lparr>currentSession = None, storage = \<lparr>version = 1, sessions = []\<rparr>,
      vaultFiles = vault(changelogPath := None),
      changelogFile = map_option OtherText (vault changelogPath)\<rparr>"

text \<open>
  \<open>saveChangelog\<close> writes the text of the storage to the changelog file, with
  \<open>vault.modify\<close> when the file exists and with \<open>vault.create\<close> otherwise.
\<close>

definition saveChangelog :: "ServiceState \<Rightarrow> ServiceState" where
  "saveChangelog st = st\<lparr>changelogFile := Some (StorageText (storage st))\<rparr>"

text \<open>
  \<open>JSON.parse(content)\<close> in \<open>loadChangelog\<close>. On the text that \<open>JSON.stringify\<close> made of
  a storage it gives that storage back: ids, paths and contents are strings, times are
  integers, and a field that is \<open>undefined\<close> is left out of the text and missing after
  it. On another text it is the parser of the platform, the argument \<open>JSON_parse\<close>:
  \<open>None\<close> when it throws, and the parsed value otherwise. The service takes that value
  for its storage without looking at it; the model follows it on the values that have
  the fields of a storage (on any other value the later reads of \<open>storage.sessions\<close>
  throw).
\<close>

definition readStorage ::
  "(string \<Rightarrow> ChangelogStorage option) \<Rightarrow> ChangelogContent \<Rightarrow> ChangelogStorage option" where
  "readStorage JSON_parse content =
     (case content of StorageText stored \<Rightarrow> Some stored | OtherText t \<Rightarrow> JSON_parse t)"

text \<open>
  \<open>loadChangelog\<close>: nothing when the file does not exist; otherwise the storage is the
  parsed content, and the empty storage when the parser throws.
\<close>

definition loadChangelog ::
  "(string \<Rightarrow> ChangelogStorage option) \<Rightarrow> ServiceState \<Rightarrow> ServiceState" where
  "loadChangelog JSON_parse st =
     (case changelogFile st of
        None \<Rightarrow> st
      | Some content \<Rightarrow>
          (case readStorage JSON_parse content of
             Some parsed \<Rightarrow> st\<lparr>storage := parsed\<rparr>
           | None \<Rightarrow> st\<lparr>storage := \<lparr>version = 1, sessions = []\<rparr>\<rparr>))"

text \<open>
  \<open>initialize\<close>: \<open>ensureChangelogFolder\<close> creates the folder of the changelog file when
  it is missing (folders are not part of the state), then the changelog is loaded.
\<close>

definition initialize ::
  "(string \<Rightarrow> ChangelogStorage option) \<Rightarrow> ServiceState \<Rightarrow> ServiceState" where
  "initialize JSON_parse st = loadChangelog JSON_parse st"

text \<open>
  \<open>generateId\<close> and \<open>Date.now\<close> read the clock and the random generator: their values
  are arguments (\<open>newId\<close>, \<open>now\<close>) of the operations that call them.
\<close>

definition startSession :: "string \<Rightarrow> nat \<Rightarrow> ServiceState \<Rightarrow> string \<times> ServiceState" where
  "startSession newId now st =
     (newId, st\<lparr>currentSession :=
                  Some \<lparr>sessionId = newId, startTime = now, endTime = None, changes = []\<rparr>\<rparr>)"

text \<open>\<open>slice(-MAX_SESSIONS)\<close> keeps the last \<open>MAX_SESSIONS\<close> elements.\<close>

definition endSession :: "nat \<Rightarrow> ServiceState \<Rightarrow> ServiceState" where
  "endSession now st =
     (case currentSession st of
        None \<Rightarrow> st
      | Some cur \<Rightarrow>
          (let ended = cur\<lparr>endTime := Some now\<rparr>;
               st1 =
                 (if length (changes ended) > 0 then
                    (let pushed = sessions (storage st) @ [ended];
                         pruned =
                           (if length pushed > MAX_SESSIONS
                            then drop (length pushed - MAX_SESSIONS) pushed else pushed)
                     in saveChangelog (st\<lparr>storage := (storage st)\<lparr>sessions := pruned\<rparr>\<rparr>))
                  else st)
           in st1\<lparr>currentSession := None\<rparr>))"

definition recordBefore ::
  "string \<Rightarrow> nat \<Rightarrow> string \<Rightarrow> string \<Rightarrow> ServiceState \<Rightarrow> string \<times> ServiceState" where
  "recordBefore newId now path content st =
     (newId,
      case currentSession st of
        None \<Rightarrow> st
      | Some cur \<Rightarrow>
          st\<lparr>currentSession := Some (cur\<lparr>changes := changes cur @
            [\<lparr>changeId = newId, timestamp = now, changeType = content_modified,
              filePath = path, description = ''Pending...'', beforeContent = Some content,
              afterContent = None, details = ContentModifiedDetails []\<rparr>]\<rparr>)\<rparr>)"

text \<open>\<open>changes.find(c => c.id === changeId)\<close> and the assignments to the entry found.\<close>

fun updateFirstChange ::
  "string \<Rightarrow> (ChangeEntry \<Rightarrow> ChangeEntry) \<Rightarrow> ChangeEntry list \<Rightarrow> ChangeEntry list" where
  "updateFirstChange cid f [] = []"
| "updateFirstChange cid f (c # cs) =
     (if changeId c = cid then f c # cs else c # updateFirstChange cid f cs)"

definition recordAfter ::
  "string \<Rightarrow> string \<Rightarrow> ChangeType \<Rightarrow> string \<Rightarrow> ChangeDetails \<Rightarrow> ServiceState \<Rightarrow> ServiceState" where
  "recordAfter cid afterC ty descr det st =
     (case currentSession st of
        None \<Rightarrow> st
      | Some cur \<Rightarrow>
          st\<lparr>currentSession := Some (cur\<lparr>changes :=
            updateFirstChange cid
              (\<lambda>c. c\<lparr>afterContent := Some afterC, changeType := ty, description := descr,
                     details := det\<rparr>)
              (changes cur)\<rparr>)\<rparr>)"

definition recordChange ::
  "string \<Rightarrow> nat \<Rightarrow> string \<Rightarrow> ChangeType \<Rightarrow> string \<Rightarrow> ChangeDetails \<Rightarrow> string option
     \<Rightarrow> string option \<Rightarrow> ServiceState \<Rightarrow> string \<times> ServiceState" where
  "recordChange newId now path ty descr det beforeC afterC st =
     (newId,
      case currentSession st of
        None \<Rightarrow> st
      | Some cur \<Rightarrow>
          st\<lparr>currentSession := Some (cur\<lparr>changes := changes cur @
            [\<lparr>changeId = newId, timestamp = now, changeType = ty, filePath = path,
              description = descr, beforeContent = beforeC, afterContent = afterC,
              details = det\<rparr>]\<rparr>)\<rparr>)"

definition getSession :: "string \<Rightarrow> ServiceState \<Rightarrow> ChangelogSession option" where
  "getSession sid st = find (\<lambda>s. sessionId s = sid) (sessions (storage st))"

text \<open>
  The condition \<open>!targetChange.beforeContent\<close> and its positive form
  \<open>if (change.beforeContent)\<close> test the truthiness of the field: \<open>undefined\<close> and the
  empty string are falsy, every other string is truthy.
\<close>

definition truthy :: "string option \<Rightarrow> bool" where
  "truthy v = (case v of None \<Rightarrow> False | Some s \<Rightarrow> s \<noteq> [])"

text \<open>
  The first loop of \<open>rollbackChange\<close>: the position of the first session with a change
  of the given id, and the first such change in it.
\<close>

fun findTarget :: "string \<Rightarrow> ChangelogSession list \<Rightarrow> (nat \<times> ChangeEntry) option" where
  "findTarget cid [] = None"
| "findTarget cid (s # ss) =
     (case find (\<lambda>c. changeId c = cid) (changes s) of
        Some c \<Rightarrow> Some (0, c)
      | None \<Rightarrow> map_option (\<lambda>(i, c). (Suc i, c)) (findTarget cid ss))"

definition rollbackChange :: "string \<Rightarrow> ServiceState \<Rightarrow> bool \<times> ServiceState" where
  "rollbackChange cid st =
     (case findTarget cid (sessions (storage st)) of
        None \<Rightarrow> (False, st)
      | Some (i, targetChange) \<Rightarrow>
          if \<not> truthy (beforeContent targetChange) then (False, st)
          else if \<not> isFile st (filePath targetChange) then (False, st)
          else
            (let restored = setFile (filePath targetChange) (beforeContent targetChange) st;
                 ss = sessions (storage restored);
                 targetSession = ss ! i;
                 ss1 = ss[i := targetSession
                        \<lparr>changes := filter (\<lambda>c. changeId c \<noteq> cid) (changes targetSession)\<rparr>];
                 ss2 = filter (\<lambda>s. length (changes s) > 0) ss1
             in (True,
                 saveChangelog (restored\<lparr>storage := (storage restored)\<lparr>sessions := ss2\<rparr>\<rparr>))))"

text \<open>
  The loop of \<open>rollbackSession\<close> over the reversed copy of the changes: the state of the
  vault and the counter \<open>rolledBack\<close> after it.
\<close>

fun rollbackLoop :: "ChangeEntry list \<Rightarrow> ServiceState \<times> nat \<Rightarrow> ServiceState \<times> nat" where
  "rollbackLoop [] acc = acc"
| "rollbackLoop (change # rest) (st, rolledBack) =
     (if truthy (beforeContent change) \<and> isFile st (filePath change)
      then rollbackLoop rest
             (setFile (filePath change) (beforeContent change) st, rolledBack + 1)
      else rollbackLoop rest (st, rolledBack))"

definition rollbackSession :: "string \<Rightarrow> ServiceState \<Rightarrow> nat \<times> ServiceState" where
  "rollbackSession sid st =
     (case getSession sid st of
        None \<Rightarrow> (0, st)
      | Some session \<Rightarrow>
          (let (restored, rolledBack) = rollbackLoop (rev (changes session)) (st, 0);
               kept = filter (\<lambda>s. sessionId s \<noteq> sid) (sessions (storage restored))
           in (rolledBack,
               saveChangelog (restored\<lparr>storage := (storage restored)\<lparr>sessions := kept\<rparr>\<rparr>))))"

text \<open>\<open>vault.modify\<close> on a file, as the patch engines' callers do through \<open>writeNote\<close>.\<close>

definition writeNote :: "string \<Rightarrow> string \<Rightarrow> ServiceState \<Rightarrow> ServiceState" where
  "writeNote path content st = setFile path (Some content) st"

text \<open>
  The calls a client of the service and a user of the vault can make, and the state after
  a sequence of them. \<open>Initialize\<close> carries the parser of the platform, \<open>WriteNote\<close> is a
  write to any file of the vault, and \<open>Construct\<close> is the constructor called again on
  the same vault, as when the plugin is loaded again.
\<close>

datatype Call =
    StartSession string nat
  | EndSession nat
  | RecordBefore string nat string string
  | RecordAfter string string ChangeType string ChangeDetails
  | RecordChange string nat string ChangeType string ChangeDetails "string option" "string option"
  | RollbackChange string
  | RollbackSession string
  | Initialize "string \<Rightarrow> ChangelogStorage option"
  | WriteNote string string
  | DeleteNote string
  | Construct

fun call :: "Call \<Rightarrow> ServiceState \<Rightarrow> ServiceState" where
  "call (StartSession newId now) st = snd (startSession newId now st)"
| "call (EndSession now) st = endSession now st"
| "call (RecordBefore newId now path content) st = snd (recordBefore newId now path content st)"
| "call (RecordAfter cid afterC ty descr det) st = recordAfter cid afterC ty descr det st"
| "call (RecordChange newId now path ty descr det beforeC afterC) st =
     snd (recordChange newId now path ty descr det beforeC afterC st)"
| "call (RollbackChange cid) st = snd (rollbackChange cid st)"
| "call (RollbackSession sid) st = snd (rollbackSession sid st)"
| "call (Initialize JSON_parse) st = initialize JSON_parse st"
| "call (WriteNote path content) st = writeNote path content st"
| "call (DeleteNote path) st = setFile path None st"
| "call Construct st =
     st\<lparr>currentSession := None, storage := \<lparr>version = 1, sessions = []\<rparr>\<rparr>"

definition calls :: "Call list \<Rightarrow> ServiceState \<Rightarrow> ServiceState" where
  "calls cs st = foldl (\<lambda>s c. call c s) st cs"

definition noEmptySession :: "ChangelogStorage \<Rightarrow> bool" where
  "noEmptySession sto = list_all (\<lambda>s. changes s \<noteq> []) (sessions sto)"

section \<open>The text patch engine: tags\<close>

text \<open>
  On the code units of the model, \<open>\s\<close> (and what \<open>trim\<close> and \<open>trimEnd\<close> strip) is
  tab, line feed, vertical tab, form feed, carriage return, space and the no-break space
  \<open>U+00A0\<close>; the line terminators, which \<open>.\<close> does not match and at which \<open>^\<close> and
  \<open>$\<close> match under the flag \<open>m\<close>, are line feed and carriage return.
\<close>

definition isSpace :: "char \<Rightarrow> bool" where
  "isSpace c = (let n = (of_char c :: nat) in (9 \<le> n \<and> n \<le> 13) \<or> n = 32 \<or> n = 160)"

definition isLineTerminator :: "char \<Rightarrow> bool" where
  "isLineTerminator c = (let n = (of_char c :: nat) in n = 10 \<or> n = 13)"

definition isLetter :: "char \<Rightarrow> bool" where
  "isLetter c = (let n = (of_char c :: nat) in (65 \<le> n \<and> n \<le> 90) \<or> (97 \<le> n \<and> n \<le> 122))"

definition isDigit :: "char \<Rightarrow> bool" where
  "isDigit c = (let n = (of_char c :: nat) in 48 \<le> n \<and> n \<le> 57)"

text \<open>The class \<open>[a-zA-Z0-9_/-]\<close>.\<close>

definition isTagChar :: "char \<Rightarrow> bool" where
  "isTagChar c = (isLetter c \<or> isDigit c \<or> c = CHR ''_'' \<or> c = CHR ''/'' \<or> c = CHR ''-'')"

definition trimEnd :: "string \<Rightarrow> string" where
  "trimEnd s = rev (dropWhile isSpace (rev s))"

definition trim :: "string \<Rightarrow> string" where
  "trim s = dropWhile isSpace (trimEnd s)"

text \<open>\<open>s.split(',')\<close> for a separator of one code unit; \<open>xs.join(sep)\<close>.\<close>

fun splitOn :: "char \<Rightarrow> string \<Rightarrow> string list" where
  "splitOn sep [] = [[]]"
| "splitOn sep (c # cs) =
     (if c = sep then [] # splitOn sep cs
      else (case splitOn sep cs of [] \<Rightarrow> [[c]] | x # xs \<Rightarrow> (c # x) # xs))"

fun join :: "string \<Rightarrow> string list \<Rightarrow> string" where
  "join sep [] = []"
| "join sep [x] = x"
| "join sep (x # y # ys) = x @ sep @ join sep (y # ys)"

text \<open>
  \<open>content.match(/^---\n([\s\S]*?)\n---/)\<close>: the content starts with the opening line
  and the lazy group ends at the first \<open>\n---\<close> behind it. The result is the offset of
  the closing marker behind the opening line; the group is the text before it.
\<close>

definition frontmatterEnd :: "string \<Rightarrow> nat option" where
  "frontmatterEnd content =
     (if prefix ''---\<newline>'' content then firstIndex ''\<newline>---'' (drop 4 content) else None)"

definition frontmatterMatch :: "string \<Rightarrow> string option" where
  "frontmatterMatch content = map_option (\<lambda>i. take i (drop 4 content)) (frontmatterEnd content)"

text \<open>
  The first place in a text where \<open>^tags:\<close> matches under the flag \<open>m\<close>: the text
  before it and the text from \<open>tags:\<close> on. The flag of the function says whether the
  position is the start of a line.
\<close>

fun findTagsLine :: "bool \<Rightarrow> string \<Rightarrow> (string \<times> string) option" where
  "findTagsLine atLineStart [] = None"
| "findTagsLine atLineStart (c # cs) =
     (if atLineStart \<and> prefix ''tags:'' (c # cs) then Some ([], c # cs)
      else map_option (\<lambda>(b, r). (c # b, r)) (findTagsLine (isLineTerminator c) cs))"

text \<open>
  The group of \<open>/^tags:\s*(\[.*?\]|.*?)$/m\<close> and of \<open>/^tags:\s*(.*)$/m\<close>. The greedy
  \<open>\s*\<close> takes all white space behind \<open>tags:\<close>, line ends included; what follows is
  no white space, and each form of the group followed by \<open>$\<close> takes the rest of that
  line: \<open>.\<close> stops at a line terminator, and \<open>$\<close> holds nowhere before it.
\<close>

definition tagsLineValue :: "string \<Rightarrow> string option" where
  "tagsLineValue fm =
     map_option (\<lambda>(b, r). takeWhile (\<lambda>c. \<not> isLineTerminator c) (dropWhile isSpace (drop 5 r)))
       (findTagsLine True fm)"

definition parseFrontmatterTags :: "string \<Rightarrow> string list" where
  "parseFrontmatterTags v =
     (if prefix ''['' v
      then filter (\<lambda>t. length t > 0) (map trim (splitOn (CHR '','') (butlast (drop 1 v))))
      else filter (\<lambda>t. length t > 0) [trim v])"

text \<open>
  The groups of the matches of \<open>/(?:^|[\s])#([a-zA-Z][a-zA-Z0-9_/-]*)/g\<close>, in order. The
  flag says whether the position is the start of the text (\<open>^\<close> has no flag \<open>m\<close> here).
  A match is \<open>#\<close>, a letter and the longest run of tag characters, at the start of the
  text or behind one white-space code unit; the search goes on behind the match.
\<close>

function inlineTagMatches :: "bool \<Rightarrow> string \<Rightarrow> string list" where
  "inlineTagMatches atStart [] = []"
| "inlineTagMatches atStart (c # cs) =
     (if atStart \<and> c = CHR ''#'' \<and> cs \<noteq> [] \<and> isLetter (hd cs)
      then takeWhile isTagChar cs # inlineTagMatches False (dropWhile isTagChar cs)
      else if isSpace c \<and> prefix ''#'' cs \<and> drop 1 cs \<noteq> [] \<and> isLetter (hd (drop 1 cs))
      then takeWhile isTagChar (drop 1 cs)
             # inlineTagMatches False (dropWhile isTagChar (drop 1 cs))
      else inlineTagMatches False cs)"
  by pat_completeness auto
termination
proof (relation "measure (\<lambda>(b, s). length s)", goal_cases)
  case 1
  then show ?case by simp
next
  case (2 atStart c cs)
  have "length (dropWhile isTagChar cs) \<le> length cs"
    by (rule length_dropWhile_le)
  then show ?case by simp
next
  case (3 atStart c cs)
  have "length (dropWhile isTagChar (drop 1 cs)) \<le> length cs"
    by (rule order_trans [OF length_dropWhile_le]) simp
  then show ?case by simp
next
  case 4
  then show ?case by simp
qed

definition extractExistingTags :: "string \<Rightarrow> string list" where
  "extractExistingTags content =
     (case frontmatterMatch content of
        None \<Rightarrow> []
      | Some fm \<Rightarrow>
          (case tagsLineValue fm of None \<Rightarrow> [] | Some v \<Rightarrow> parseFrontmatterTags v))
     @ inlineTagMatches True content"

text \<open>
  The replacement text of \<open>String.prototype.replace\<close> when the replacement is a string
  (the operation \<open>GetSubstitution\<close> of the language, without named groups): \<open>$$\<close> is a
  dollar sign, \<open>$&\<close> the match, \<open>$`\<close> and \<open>$'\<close> the text before and behind the match,
  \<open>$n\<close> and \<open>$nn\<close> the group of that number when the expression has one (two digits
  are tried first); any other \<open>$\<close> stands for itself.
\<close>

definition digitValue :: "char \<Rightarrow> nat" where
  "digitValue c = of_char c - 48"

fun getSubstitution :: "string \<Rightarrow> string \<Rightarrow> string \<Rightarrow> string list \<Rightarrow> string \<Rightarrow> string" where
  "getSubstitution matched pre post captures [] = []"
| "getSubstitution matched pre post captures [c] = [c]"
| "getSubstitution matched pre post captures (c # d # rest) =
     (if c \<noteq> CHR ''$'' then c # getSubstitution matched pre post captures (d # rest)
      else if d = CHR ''$'' then CHR ''$'' # getSubstitution matched pre post captures rest
      else if d = CHR ''&'' then matched @ getSubstitution matched pre post captures rest
      else if d = CHR 0x60 then pre @ getSubstitution matched pre post captures rest
      else if d = CHR 0x27 then post @ getSubstitution matched pre post captures rest
      else if isDigit d then
        (let n1 = digitValue d;
             nn = (if rest \<noteq> [] \<and> isDigit (hd rest)
                   then Some (10 * n1 + digitValue (hd rest)) else None);
             two = (case nn of None \<Rightarrow> False | Some n \<Rightarrow> 1 \<le> n \<and> n \<le> length captures)
         in if two then captures ! (the nn - 1)
                          @ getSubstitution matched pre post captures (tl rest)
            else if 1 \<le> n1 \<and> n1 \<le> length captures
            then captures ! (n1 - 1) @ getSubstitution matched pre post captures rest
            else c # d # getSubstitution matched pre post captures rest)
      else c # getSubstitution matched pre post captures (d # rest))"

text \<open>
  \<open>addFrontmatterTags\<close>. In an existing block, \<open>frontmatter.replace(/^tags:.*$/m, ...)\<close>
  replaces the first line that starts with \<open>tags:\<close>, up to the end of that line, and
  \<open>content.replace(frontmatterRegex, ...)\<close> replaces the block at the start of the
  content; the expression of the block has one group, that of the line has none.
\<close>

definition tagsArray :: "string list \<Rightarrow> string" where
  "tagsArray ts = ''tags: ['' @ join '', '' ts @ '']''"

definition addFrontmatterTags :: "string \<Rightarrow> string list \<Rightarrow> string" where
  "addFrontmatterTags content tags =
     (case frontmatterEnd content of
        Some i \<Rightarrow>
          (let matched = take (i + 8) content;
               frontmatter = take i (drop 4 content);
               frontmatter' =
                 (case findTagsLine True frontmatter of
                    Some (b, r) \<Rightarrow>
                      (let existingTags =
                             parseFrontmatterTags
                               (takeWhile (\<lambda>c. \<not> isLineTerminator c)
                                  (dropWhile isSpace (drop 5 r)));
                           existingLower = map toLowerCase existingTags;
                           newTags =
                             filter (\<lambda>t. \<not> List.member existingLower (toLowerCase t)) tags;
                           allTags = existingTags @ newTags;
                           newTagsLine = tagsArray allTags;
                           line = takeWhile (\<lambda>c. \<not> isLineTerminator c) r;
                           behind = dropWhile (\<lambda>c. \<not> isLineTerminator c) r
                       in b @ getSubstitution line b behind [] newTagsLine @ behind)
                  | None \<Rightarrow> frontmatter @ ''\<newline>'' @ tagsArray tags)
           in getSubstitution matched [] (drop (i + 8) content) [frontmatter]
                (''---\<newline>'' @ frontmatter' @ ''\<newline>---'')
              @ drop (i + 8) content)
      | None \<Rightarrow> ''---\<newline>'' @ tagsArray tags @ ''\<newline>---\<newline>\<newline>'' @ content)"

definition tagName :: "SuggestedTag \<Rightarrow> string" where
  "tagName t = (if prefix ''#'' (tag t) then drop 1 (tag t) else tag t)"

text \<open>
  The loop of \<open>applyTags\<close>: the two arrays \<open>frontmatterTags\<close> and \<open>inlineTags\<close> it
  fills. The existing tags are those of the content before the loop.
\<close>

fun collectTags :: "string list \<Rightarrow> SuggestedTag list \<Rightarrow> string list \<times> string list" where
  "collectTags existingTags [] = ([], [])"
| "collectTags existingTags (t # ts) =
     (let (frontmatterTags, inlineTags) = collectTags existingTags ts
      in if list_ex (\<lambda>e. toLowerCase e = toLowerCase (tagName t)) existingTags
         then (frontmatterTags, inlineTags)
         else if location t = frontmatter then (tagName t # frontmatterTags, inlineTags)
         else (frontmatterTags, (''#'' @ tagName t) # inlineTags))"

definition applyTags :: "string \<Rightarrow> SuggestedTag list \<Rightarrow> string" where
  "applyTags content tags =
     (let existingTags = extractExistingTags content;
          (frontmatterTags, inlineTags) = collectTags existingTags tags;
          result1 = (if length frontmatterTags > 0
                     then addFrontmatterTags content frontmatterTags else content);
          result2 = (if length inlineTags > 0
                     then trimEnd result1 @ ''\<newline>\<newline>'' @ join '' '' inlineTags
                     else result1)
      in result2)"

section \<open>The tagging engine's filter\<close>

record VaultContext =
  existingNotes :: "string list"
  existingTags :: "string list"
  predefinedTags :: "string list"
  whitelistWords :: "string list"
  blacklistWords :: "string list"

definition isTagInFrontmatter :: "string \<Rightarrow> string \<Rightarrow> bool" where
  "isTagInFrontmatter content tagWithoutHash =
     (case frontmatterMatch content of
        None \<Rightarrow> False
      | Some fm \<Rightarrow>
          (case tagsLineValue fm of
             None \<Rightarrow> False
           | Some tagsLine \<Rightarrow> str_includes (toLowerCase tagsLine) (toLowerCase tagWithoutHash)))"

text \<open>
  The body of the loop of \<open>filterTags\<close> for one suggestion; the threshold and
  \<open>allowNewTags\<close> are the fields of the engine.
\<close>

definition tagAccepted :: "number \<Rightarrow> bool \<Rightarrow> string \<Rightarrow> VaultContext \<Rightarrow> SuggestedTag \<Rightarrow> bool" where
  "tagAccepted confidenceThreshold allowNewTags content ctx t =
     (let normalizedTag = (if prefix ''#'' (tag t) then tag t else ''#'' @ tag t)
      in if js_lt (confidence t) confidenceThreshold then False
         else if str_includes content normalizedTag then False
         else if isTagInFrontmatter content (drop 1 normalizedTag) then False
         else if list_ex (\<lambda>w. str_includes (toLowerCase normalizedTag) (toLowerCase w))
                   (blacklistWords ctx) then False
         else if \<not> allowNewTags
                 \<and> \<not> List.member (existingTags ctx) normalizedTag
                 \<and> \<not> list_ex (\<lambda>p. toLowerCase p = toLowerCase normalizedTag
                                    \<or> toLowerCase p = toLowerCase (drop 1 normalizedTag))
                         (predefinedTags ctx) then False
         else True)"

fun filterTags ::
  "number \<Rightarrow> bool \<Rightarrow> SuggestedTag list \<Rightarrow> string \<Rightarrow> VaultContext
     \<Rightarrow> SuggestedTag list \<times> SuggestedTag list" where
  "filterTags confidenceThreshold allowNewTags [] content ctx = ([], [])"
| "filterTags confidenceThreshold allowNewTags (t # ts) content ctx =
     (let (toApply, toSkip) = filterTags confidenceThreshold allowNewTags ts content ctx
      in if tagAccepted confidenceThreshold allowNewTags content ctx t
         then (t # toApply, toSkip) else (toApply, t # toSkip))"

section \<open>The oracle's response\<close>

text \<open>
  A value as \<open>JSON.parse\<close> returns it. An object is the list of its own properties;
  reading a property looks the name up in it.
\<close>

datatype json =
    JNull
  | JBool bool
  | JNumber number
  | JString string
  | JArray "json list"
  | JObject "(string \<times> json) list"

datatype jsError = TypeError | SyntaxError | NoJsonFound

record NoteAnalysisResult =
  suggestedLinks :: "SuggestedLink list"
  suggestedTags :: "SuggestedTag list"
  keyConcepts :: "json list"
  summary :: string

text \<open>
  \<open>v.name\<close> for a value \<open>v\<close> other than \<open>null\<close> and one of the names the service
  reads: the property of an object, \<open>undefined\<close> (\<open>None\<close>) when the object has none of
  that name and on every value that is no object. On \<open>null\<close> the read throws a
  \<open>TypeError\<close>, which is written out where the service reads.
\<close>

definition property :: "json \<Rightarrow> string \<Rightarrow> json option" where
  "property v name = (case v of JObject props \<Rightarrow> map_of props name | _ \<Rightarrow> None)"

text \<open>\<open>typeof x === 'string' ? x : ''\<close> and \<open>typeof x === 'number' ? x : 0.5\<close>.\<close>

definition stringOrEmpty :: "json option \<Rightarrow> string" where
  "stringOrEmpty x = (case x of Some (JString s) \<Rightarrow> s | _ \<Rightarrow> [])"

definition numberOrHalf :: "json option \<Rightarrow> number" where
  "numberOrHalf x = (case x of Some (JNumber n) \<Rightarrow> n | _ \<Rightarrow> Finite 0.5)"

definition validateLink :: "json \<Rightarrow> jsError + SuggestedLink" where
  "validateLink l =
     (if l = JNull then Inl TypeError
      else
        (let rawConfidence = numberOrHalf (property l ''confidence'');
             confidence = Math_min (Finite 1) (Math_max (Finite 0) rawConfidence)
         in Inr \<lparr>reasoning = stringOrEmpty (property l ''reasoning''),
                 confidence = confidence,
                 targetText = stringOrEmpty (property l ''targetText''),
                 linkTarget = stringOrEmpty (property l ''linkTarget'')\<rparr>))"

definition validateTag :: "json \<Rightarrow> jsError + SuggestedTag" where
  "validateTag t =
     (if t = JNull then Inl TypeError
      else
        (let rawConfidence = numberOrHalf (property t ''confidence'');
             confidence = Math_min (Finite 1) (Math_max (Finite 0) rawConfidence)
         in Inr \<lparr>reasoning = stringOrEmpty (property t ''reasoning''),
                 confidence = confidence,
                 tag = stringOrEmpty (property t ''tag''),
                 location = (if property t ''location'' = Some (JString ''inline'')
                             then inline else frontmatter)\<rparr>))"

text \<open>\<open>xs.map(f)\<close> for an \<open>f\<close> that may throw: the first exception ends the loop.\<close>

fun mapThrowing :: "('a \<Rightarrow> jsError + 'b) \<Rightarrow> 'a list \<Rightarrow> jsError + 'b list" where
  "mapThrowing f [] = Inr []"
| "mapThrowing f (x # xs) =
     (case f x of
        Inl e \<Rightarrow> Inl e
      | Inr y \<Rightarrow> (case mapThrowing f xs of Inl e \<Rightarrow> Inl e | Inr ys \<Rightarrow> Inr (y # ys)))"

text \<open>
  \<open>responseText.match(/\{[\s\S]*\}/)\<close>: the match starts at the first \<open>{\<close> and the
  greedy star takes everything up to the last \<open>}\<close> behind it.
\<close>

definition jsonMatch :: "string \<Rightarrow> string option" where
  "jsonMatch responseText =
     (let fromBrace = dropWhile (\<lambda>c. c \<noteq> CHR ''{'') responseText;
          upToLast = rev (dropWhile (\<lambda>c. c \<noteq> CHR ''}'') (rev (drop 1 fromBrace)))
      in if fromBrace = [] \<or> upToLast = [] then None else Some (CHR ''{'' # upToLast))"

definition emptyResult :: NoteAnalysisResult where
  "emptyResult = \<lparr>suggestedLinks = [], suggestedTags = [], keyConcepts = [], summary = []\<rparr>"

text \<open>The object literal that \<open>parseAnalysisResponse\<close> returns from the parsed value.\<close>

definition validated :: "json \<Rightarrow> jsError + NoteAnalysisResult" where
  "validated parsed =
     (if parsed = JNull then Inl TypeError
      else
        (case (case property parsed ''suggestedLinks'' of
                 Some (JArray xs) \<Rightarrow> mapThrowing validateLink xs | _ \<Rightarrow> Inr []) of
           Inl e \<Rightarrow> Inl e
         | Inr links \<Rightarrow>
             (case (case property parsed ''suggestedTags'' of
                      Some (JArray xs) \<Rightarrow> mapThrowing validateTag xs | _ \<Rightarrow> Inr []) of
                Inl e \<Rightarrow> Inl e
              | Inr tags \<Rightarrow>
                  Inr \<lparr>suggestedLinks = links, suggestedTags = tags,
                       keyConcepts = (case property parsed ''keyConcepts'' of
                                        Some (JArray xs) \<Rightarrow> xs | _ \<Rightarrow> []),
                       summary = stringOrEmpty (property parsed ''summary'')\<rparr>)))"

text \<open>
  The body of the \<open>try\<close> block, and the function with its \<open>catch\<close>. \<open>JSON.parse\<close>
  belongs to the platform and is an argument of the model: \<open>None\<close> is the
  \<open>SyntaxError\<close> it throws.
\<close>

definition tryParse :: "(string \<Rightarrow> json option) \<Rightarrow> string \<Rightarrow> jsError + NoteAnalysisResult" where
  "tryParse JSON_parse responseText =
     (case jsonMatch responseText of
        None \<Rightarrow> Inl NoJsonFound
      | Some jsonText \<Rightarrow>
          (case JSON_parse jsonText of
             None \<Rightarrow> Inl SyntaxError
           | Some parsed \<Rightarrow> validated parsed))"

definition parseAnalysisResponse :: "(string \<Rightarrow> json option) \<Rightarrow> string \<Rightarrow> NoteAnalysisResult" where
  "parseAnalysisResponse JSON_parse responseText =
     (case tryParse JSON_parse responseText of Inl e \<Rightarrow> emptyResult | Inr r \<Rightarrow> r)"

text \<open>
  The invariant of the change log: neither the storage of the service nor the changelog
  file holds a session without changes.
\<close>

text \<open>
  The storage and the changelog file hold no session without changes. The file is then
  missing or holds the text that \<open>saveChangelog\<close> made of such a storage.
\<close>

definition persistedOk :: "ServiceState \<Rightarrow> bool" where
  "persistedOk st =
     (noEmptySession (storage st)
      \<and> (case changelogFile st of
           None \<Rightarrow> True
         | Some (StorageText stored) \<Rightarrow> noEmptySession stored
         | Some (OtherText t) \<Rightarrow> False))"

text \<open>The calls that write a text to the changelog file from outside the service.\<close>

fun writesChangelogFile :: "Call \<Rightarrow> bool" where
  "writesChangelogFile (WriteNote path content) = (path = changelogPath)"
| "writesChangelogFile _ = False"

text \<open>
  The values of \<open>JSON.parse\<close> on the texts of one scenario: a changelog file that holds
  one session, and that session has no changes.
\<close>

definition JSON_parse_changelog :: "string \<Rightarrow> ChangelogStorage option" where
  "JSON_parse_changelog t =
     (if t = ''{\"version\":1,\"sessions\":[{\"sessionId\":\"s0\",\"startTime\":0,\"changes\":[]}]}''
      then Some \<lparr>version = 1,
                 sessions = [\<lparr>sessionId = ''s0'', startTime = 0, endTime = None, changes = []\<rparr>]\<rparr>
      else None)"

text \<open>
  The reading of the response that the specification words: the first well-formed
  structured block of the text, that is the first piece of the text (by start, then by
  length) that begins with a brace and that \<open>JSON.parse\<close> accepts; its value is validated
  as above, and the empty result stands for a text without such a piece.
\<close>

definition blocks :: "string \<Rightarrow> string list" where
  "blocks response =
     concat (map (\<lambda>i. map (\<lambda>n. take n (drop i response)) [1..<Suc (length response - i)])
               [0..<length response])"

definition firstWellFormedBlock :: "(string \<Rightarrow> json option) \<Rightarrow> string \<Rightarrow> json option" where
  "firstWellFormedBlock JSON_parse response =
     (case filter (\<lambda>b. prefix ''{'' b \<and> JSON_parse b \<noteq> None) (blocks response) of
        [] \<Rightarrow> None
      | b # _ \<Rightarrow> JSON_parse b)"

definition firstBlockResult :: "(string \<Rightarrow> json option) \<Rightarrow> string \<Rightarrow> NoteAnalysisResult" where
  "firstBlockResult JSON_parse response =
     (case firstWellFormedBlock JSON_parse response of
        None \<Rightarrow> emptyResult
      | Some parsed \<Rightarrow> (case validated parsed of Inl e \<Rightarrow> emptyResult | Inr r \<Rightarrow> r))"

text \<open>
  The values of \<open>JSON.parse\<close> on the texts of one scenario: it returns the object with
  the one property \<open>summary\<close> on the text \<open>{"summary":"a"}\<close>, and it throws on every
  proper prefix of that text and on that text followed by more than white space.
\<close>

definition JSON_parse_scenario :: "string \<Rightarrow> json option" where
  "JSON_parse_scenario s =
     (if s = ''{\"summary\":\"a\"}'' then Some (JObject [(''summary'', JString ''a'')]) else None)"



text \<open>
  The line that \<open>/^tags:.*$/m\<close> matches in a header block, the one that
  \<open>addFrontmatterTags\<close> replaces: from the first \<open>tags:\<close> at the start of a line
  to the end of that line; empty when there is none.
\<close>

definition tagsLine :: "string \<Rightarrow> string" where
  "tagsLine fm =
     (case findTagsLine True fm of
        None \<Rightarrow> []
      | Some (b, r) \<Rightarrow> takeWhile (\<lambda>c. \<not> isLineTerminator c) r)"


section \<open>The scenario of the note about cats\<close>

text \<open>
  C1, as the code has it. For the content \<open>I love cats.\<close>, the one suggestion with target
  text \<open>cats\<close>, link target \<open>Cats\<close> and confidence 0.9, the known notes \<open>[Cats]\<close> and
  the threshold 0.7, \<open>filterLinks\<close> puts the suggestion into \<open>toApply\<close> and
  \<open>applyLinks\<close> returns \<open>I love [[Cats]].\<close>: the matched text and the link target are
  compared in lower case, where they are equal, so the link is written without an alias.
\<close>

theorem cats_scenario:
  "filterLinks (Finite 0.7)
     [\<lparr>reasoning = [], confidence = Finite 0.9, targetText = ''cats'', linkTarget = ''Cats''\<rparr>]
     ''I love cats.'' [''Cats'']
     = ([\<lparr>reasoning = [], confidence = Finite 0.9, targetText = ''cats'',
           linkTarget = ''Cats''\<rparr>], [])
   \<and> applyLinks ''I love cats.''
       [\<lparr>reasoning = [], confidence = Finite 0.9, targetText = ''cats'', linkTarget = ''Cats''\<rparr>]
     = ''I love [[Cats]].''"
  by code_simp

text \<open>
  C1, as the specification states it, fails: the result of \<open>applyLinks\<close> in the scenario is
  not the alias form \<open>I love [[Cats|cats]].\<close>
\<close>

theorem cats_scenario_no_alias:
  "applyLinks ''I love cats.''
     [\<lparr>reasoning = [], confidence = Finite 0.9, targetText = ''cats'', linkTarget = ''Cats''\<rparr>]
   \<noteq> ''I love [[Cats|cats]].''"
  by code_simp

section \<open>Confidence gating\<close>

lemma js_lt_mono: "js_le t1 t2 \<Longrightarrow> js_lt c t1 \<Longrightarrow> js_lt c t2"
  by (cases c; cases t1; cases t2) (auto simp: js_le_def)

lemma fst_filterLinks:
  "fst (filterLinks t links content known) = filter (linkAccepted t content known) links"
  by (induction links) (auto split: prod.splits)

lemma snd_filterLinks:
  "snd (filterLinks t links content known)
     = filter (\<lambda>l. \<not> linkAccepted t content known l) links"
  by (induction links) (auto split: prod.splits)

lemma fst_filterTags:
  "fst (filterTags t allow tags content ctx) = filter (tagAccepted t allow content ctx) tags"
  by (induction tags) (auto split: prod.splits)

lemma snd_filterTags:
  "snd (filterTags t allow tags content ctx)
     = filter (\<lambda>l. \<not> tagAccepted t allow content ctx l) tags"
  by (induction tags) (auto split: prod.splits)

lemma subseq_filter_mono:
  "(\<And>x. x \<in> set xs \<Longrightarrow> P x \<Longrightarrow> Q x) \<Longrightarrow> subseq (filter P xs) (filter Q xs)"
proof (induction xs)
  case Nil
  then show ?case by simp
next
  case (Cons x xs)
  then show ?case by (auto intro: subseq_Cons')
qed

lemma linkAccepted_mono:
  "js_le t1 t2 \<Longrightarrow> linkAccepted t2 content known l \<Longrightarrow> linkAccepted t1 content known l"
  unfolding linkAccepted_def using js_lt_mono by (auto split: if_splits)

lemma tagAccepted_mono:
  "js_le t1 t2 \<Longrightarrow> tagAccepted t2 allow content ctx l \<Longrightarrow> tagAccepted t1 allow content ctx l"
  unfolding tagAccepted_def Let_def using js_lt_mono by (auto split: if_splits)

text \<open>
  C8. When the threshold \<open>t1\<close> is at most \<open>t2\<close>, the list \<open>toApply\<close> of \<open>filterLinks\<close>
  at \<open>t2\<close> is a subsequence of the one at \<open>t1\<close> (so its elements are among those and it
  is not longer), for the same suggestions, content and known notes; likewise for
  \<open>filterTags\<close>. A suggestion whose confidence is below the threshold is in \<open>toSkip\<close>
  and not in \<open>toApply\<close>, whatever the other conditions say.
\<close>

theorem confidence_monotonicity:
  assumes "js_le t1 t2"
  shows "subseq (fst (filterLinks t2 links content known))
           (fst (filterLinks t1 links content known))
       \<and> subseq (fst (filterTags t2 allow tags content ctx))
           (fst (filterTags t1 allow tags content ctx))
       \<and> (\<forall>l \<in> set links. js_lt (confidence l) t2 \<longrightarrow>
             l \<in> set (snd (filterLinks t2 links content known))
             \<and> l \<notin> set (fst (filterLinks t2 links content known)))
       \<and> (\<forall>t \<in> set tags. js_lt (confidence t) t2 \<longrightarrow>
             t \<in> set (snd (filterTags t2 allow tags content ctx))
             \<and> t \<notin> set (fst (filterTags t2 allow tags content ctx)))"
proof -
  have a: "subseq (fst (filterLinks t2 links content known))
             (fst (filterLinks t1 links content known))"
    unfolding fst_filterLinks using assms
    by (intro subseq_filter_mono) (rule linkAccepted_mono)
  have b: "subseq (fst (filterTags t2 allow tags content ctx))
             (fst (filterTags t1 allow tags content ctx))"
    unfolding fst_filterTags using assms
    by (intro subseq_filter_mono) (rule tagAccepted_mono)
  have c: "js_lt (confidence l) t2 \<Longrightarrow> \<not> linkAccepted t2 content known l" for l
    by (simp add: linkAccepted_def)
  have d: "js_lt (confidence t) t2 \<Longrightarrow> \<not> tagAccepted t2 allow content ctx t" for t
    by (simp add: tagAccepted_def)
  show ?thesis
    using a b c d
    by (simp add: fst_filterLinks snd_filterLinks fst_filterTags snd_filterTags)
qed

text \<open>
  The thresholds 0.5 and 0.7 on a note about cats and dogs: the suggestion of confidence
  0.6 is applied at 0.5 and skipped at 0.7, the one of confidence 0.9 is applied at both.
\<close>

theorem confidence_monotonicity_witness:
  "js_le (Finite 0.5) (Finite 0.7)
   \<and> js_lt (Finite 0.6) (Finite 0.7)
   \<and> fst (filterLinks (Finite 0.5)
        [\<lparr>reasoning = [], confidence = Finite 0.6, targetText = ''cats'', linkTarget = ''Cats''\<rparr>,
         \<lparr>reasoning = [], confidence = Finite 0.9, targetText = ''dogs'', linkTarget = ''Dogs''\<rparr>]
        ''cats and dogs'' [''Cats'', ''Dogs''])
     = [\<lparr>reasoning = [], confidence = Finite 0.6, targetText = ''cats'', linkTarget = ''Cats''\<rparr>,
        \<lparr>reasoning = [], confidence = Finite 0.9, targetText = ''dogs'', linkTarget = ''Dogs''\<rparr>]
   \<and> subseq
       (fst (filterLinks (Finite 0.7)
          [\<lparr>reasoning = [], confidence = Finite 0.6, targetText = ''cats'', linkTarget = ''Cats''\<rparr>,
           \<lparr>reasoning = [], confidence = Finite 0.9, targetText = ''dogs'', linkTarget = ''Dogs''\<rparr>]
          ''cats and dogs'' [''Cats'', ''Dogs'']))
       [\<lparr>reasoning = [], confidence = Finite 0.6, targetText = ''cats'', linkTarget = ''Cats''\<rparr>,
        \<lparr>reasoning = [], confidence = Finite 0.9, targetText = ''dogs'', linkTarget = ''Dogs''\<rparr>]
   \<and> \<lparr>reasoning = [], confidence = Finite 0.6, targetText = ''cats'', linkTarget = ''Cats''\<rparr>
       \<in> set (snd (filterLinks (Finite 0.7)
          [\<lparr>reasoning = [], confidence = Finite 0.6, targetText = ''cats'', linkTarget = ''Cats''\<rparr>,
           \<lparr>reasoning = [], confidence = Finite 0.9, targetText = ''dogs'', linkTarget = ''Dogs''\<rparr>]
          ''cats and dogs'' [''Cats'', ''Dogs'']))
   \<and> subseq
       (fst (filterTags (Finite 0.7) True
          [\<lparr>reasoning = [], confidence = Finite 0.6, tag = ''pets'', location = inline\<rparr>]
          ''cats and dogs''
          \<lparr>existingNotes = [], existingTags = [], predefinedTags = [], whitelistWords = [],
            blacklistWords = []\<rparr>))
       (fst (filterTags (Finite 0.5) True
          [\<lparr>reasoning = [], confidence = Finite 0.6, tag = ''pets'', location = inline\<rparr>]
          ''cats and dogs''
          \<lparr>existingNotes = [], existingTags = [], predefinedTags = [], whitelistWords = [],
            blacklistWords = []\<rparr>))"
proof -
  let ?l1 = "\<lparr>reasoning = [], confidence = Finite 0.6, targetText = ''cats'',
               linkTarget = ''Cats''\<rparr>"
  let ?links = "[?l1, \<lparr>reasoning = [], confidence = Finite 0.9, targetText = ''dogs'',
                       linkTarget = ''Dogs''\<rparr>]"
  have le: "js_le (Finite 0.5) (Finite 0.7)"
    by (simp add: js_le_def)
  have lt: "js_lt (confidence ?l1) (Finite 0.7)"
    by simp
  have low: "fst (filterLinks (Finite 0.5) ?links ''cats and dogs'' [''Cats'', ''Dogs''])
               = ?links"
    by code_simp
  note m = confidence_monotonicity [OF le, of ?links "''cats and dogs''" "[''Cats'', ''Dogs'']"
      True "[\<lparr>reasoning = [], confidence = Finite 0.6, tag = ''pets'', location = inline\<rparr>]"
      "\<lparr>existingNotes = [], existingTags = [], predefinedTags = [], whitelistWords = [],
        blacklistWords = []\<rparr>"]
  from m have s1: "subseq (fst (filterLinks (Finite 0.7) ?links ''cats and dogs''
                      [''Cats'', ''Dogs''])) ?links"
    unfolding low by (rule conjunct1)
  from m lt have s2: "?l1 \<in> set (snd (filterLinks (Finite 0.7) ?links ''cats and dogs''
                        [''Cats'', ''Dogs'']))"
    by (meson list.set_intros(1))
  from m have s3: "subseq
       (fst (filterTags (Finite 0.7) True
          [\<lparr>reasoning = [], confidence = Finite 0.6, tag = ''pets'', location = inline\<rparr>]
          ''cats and dogs''
          \<lparr>existingNotes = [], existingTags = [], predefinedTags = [], whitelistWords = [],
            blacklistWords = []\<rparr>))
       (fst (filterTags (Finite 0.5) True
          [\<lparr>reasoning = [], confidence = Finite 0.6, tag = ''pets'', location = inline\<rparr>]
          ''cats and dogs''
          \<lparr>existingNotes = [], existingTags = [], predefinedTags = [], whitelistWords = [],
            blacklistWords = []\<rparr>))"
    by (meson conjunct1 conjunct2)
  have lt': "js_lt (Finite 0.6) (Finite 0.7)"
    by simp
  show ?thesis
    using le lt' low s1 s2 s3 by (intro conjI)
qed

section \<open>Sessions without changes\<close>

lemma persistedOk_newService: "vault changelogPath = None \<Longrightarrow> persistedOk (newService vault)"
  by (simp add: persistedOk_def newService_def noEmptySession_def)

lemma list_all_drop: "list_all P xs \<Longrightarrow> list_all P (drop n xs)"
  by (auto simp: list_all_iff dest: in_set_dropD)

lemma persistedOk_saved:
  "noEmptySession (storage st) \<Longrightarrow> persistedOk (saveChangelog st)"
  by (simp add: persistedOk_def saveChangelog_def)

lemma persistedOk_endSession: "persistedOk st \<Longrightarrow> persistedOk (endSession now st)"
proof (cases "currentSession st")
  case None
  assume "persistedOk st"
  with None show ?thesis by (simp add: endSession_def)
next
  case (Some cur)
  assume ok: "persistedOk st"
  show ?thesis
  proof (cases "changes cur = []")
    case True
    with Some ok show ?thesis
      by (simp add: endSession_def persistedOk_def Let_def)
  next
    case False
    with Some ok show ?thesis
      by (auto simp: endSession_def persistedOk_def Let_def saveChangelog_def noEmptySession_def
            intro: list_all_drop)
  qed
qed

lemma setFile_service:
  "storage (setFile path content st) = storage st
   \<and> currentSession (setFile path content st) = currentSession st"
  by (simp add: setFile_def)

lemma rollbackLoop_service:
  "rollbackLoop cs (st, n) = (st', n') \<Longrightarrow>
     storage st' = storage st \<and> currentSession st' = currentSession st"
proof (induction cs arbitrary: st n)
  case Nil
  then show ?case by simp
next
  case (Cons c cs)
  show ?case
  proof (cases "truthy (beforeContent c) \<and> isFile st (filePath c)")
    case True
    with Cons.prems
    have "rollbackLoop cs (setFile (filePath c) (beforeContent c) st, n + 1) = (st', n')"
      by simp
    from Cons.IH [OF this] show ?thesis
      by (simp add: setFile_service)
  next
    case False
    with Cons.prems have "rollbackLoop cs (st, n) = (st', n')"
      by auto
    from Cons.IH [OF this] show ?thesis .
  qed
qed

lemma persistedOk_rollbackChange:
  assumes "persistedOk st"
  shows "persistedOk (snd (rollbackChange cid st))"
proof (cases "fst (rollbackChange cid st)")
  case False
  then have "snd (rollbackChange cid st) = st"
    by (auto simp: rollbackChange_def Let_def split: option.splits prod.splits if_splits)
  with assms show ?thesis by simp
next
  case True
  then obtain st1 where st1: "snd (rollbackChange cid st) = saveChangelog st1"
    and sto: "noEmptySession (storage st1)"
    by (auto simp: rollbackChange_def Let_def noEmptySession_def list_all_iff
          split: option.splits prod.splits if_splits)
  then show ?thesis
    by (simp add: persistedOk_saved)
qed

lemma persistedOk_rollbackSession:
  assumes "persistedOk st"
  shows "persistedOk (snd (rollbackSession sid st))"
proof (cases "getSession sid st")
  case None
  with assms show ?thesis by (simp add: rollbackSession_def)
next
  case (Some session)
  obtain st1 n1 where l: "rollbackLoop (rev (changes session)) (st, 0) = (st1, n1)"
    by (cases "rollbackLoop (rev (changes session)) (st, 0)") auto
  from rollbackLoop_service [OF l] have sto: "storage st1 = storage st"
    by simp
  let ?st2 = "st1\<lparr>storage := (storage st1)
                \<lparr>sessions := filter (\<lambda>s. sessionId s \<noteq> sid) (sessions (storage st1))\<rparr>\<rparr>"
  have "noEmptySession (storage ?st2)"
    using assms by (simp add: sto persistedOk_def noEmptySession_def list_all_iff)
  then have "persistedOk (saveChangelog ?st2)"
    by (rule persistedOk_saved)
  with Some l show ?thesis
    by (simp add: rollbackSession_def Let_def)
qed

lemma persistedOk_initialize: "persistedOk st \<Longrightarrow> persistedOk (initialize JSON_parse st)"
  by (auto simp: persistedOk_def initialize_def loadChangelog_def readStorage_def
        split: option.splits ChangelogContent.splits)

lemma persistedOk_setFile:
  "persistedOk st \<Longrightarrow> path \<noteq> changelogPath \<or> content = None \<Longrightarrow>
     persistedOk (setFile path content st)"
  by (auto simp: persistedOk_def setFile_def)

lemma persistedOk_call:
  assumes "persistedOk st" and "\<not> writesChangelogFile c"
  shows "persistedOk (call c st)"
proof (cases c)
  case (EndSession now)
  with assms show ?thesis by (simp add: persistedOk_endSession)
next
  case (RollbackChange cid)
  with assms show ?thesis by (simp add: persistedOk_rollbackChange)
next
  case (RollbackSession sid)
  with assms show ?thesis by (simp add: persistedOk_rollbackSession)
next
  case (Initialize JSON_parse)
  with assms show ?thesis by (simp add: persistedOk_initialize)
next
  case (WriteNote path content)
  with assms show ?thesis by (simp add: writeNote_def persistedOk_setFile)
next
  case (DeleteNote path)
  with assms show ?thesis by (simp add: persistedOk_setFile)
next
  case Construct
  with assms show ?thesis by (simp add: persistedOk_def noEmptySession_def)
qed (use assms in \<open>auto simp: persistedOk_def startSession_def recordBefore_def recordAfter_def
       recordChange_def split: option.splits\<close>)

lemma persistedOk_calls:
  "persistedOk st \<Longrightarrow> list_all (\<lambda>c. \<not> writesChangelogFile c) cs \<Longrightarrow> persistedOk (calls cs st)"
  unfolding calls_def by (induction cs arbitrary: st) (auto simp: persistedOk_call)

text \<open>
  C6. As long as nobody but the service writes the changelog file, no session with zero
  changes is persisted: from a state whose storage and changelog file hold no such
  session, and so from a freshly constructed service on a vault without a changelog file,
  every sequence of calls without a write to the changelog file from outside leaves the
  storage and the changelog file without one. \<open>endSession\<close> pushes and saves the current
  session only when its list of changes is not empty, \<open>rollbackChange\<close> filters the
  empty sessions out before it saves, \<open>initialize\<close> reads back what the service saved,
  and the other operations add no session.
\<close>

theorem no_empty_session_persisted:
  assumes "list_all (\<lambda>c. \<not> writesChangelogFile c) cs"
  shows "(persistedOk st \<longrightarrow> persistedOk (calls cs st))
       \<and> (vault changelogPath = None \<longrightarrow> persistedOk (calls cs (newService vault)))"
  using assms by (simp add: persistedOk_calls persistedOk_newService)

text \<open>
  A run of the service on a vault of one note: the changelog is loaded, a session without
  changes is ended, a session with one change is ended and rolled back, and the plugin is
  loaded again. The changelog file then holds the text of the storage without sessions.
\<close>

theorem no_empty_session_persisted_witness:
  "list_all (\<lambda>c. \<not> writesChangelogFile c)
     [Initialize JSON_parse_changelog, StartSession ''s1'' 1, EndSession 2,
      StartSession ''s2'' 3, RecordBefore ''c1'' 4 ''a.md'' ''A'', WriteNote ''a.md'' ''A1'',
      EndSession 5, RollbackChange ''c1'', Construct, Initialize JSON_parse_changelog]
   \<and> [''a.md'' \<mapsto> ''A''] changelogPath = None
   \<and> persistedOk (calls
       [Initialize JSON_parse_changelog, StartSession ''s1'' 1, EndSession 2,
        StartSession ''s2'' 3, RecordBefore ''c1'' 4 ''a.md'' ''A'', WriteNote ''a.md'' ''A1'',
        EndSession 5, RollbackChange ''c1'', Construct, Initialize JSON_parse_changelog]
       (newService [''a.md'' \<mapsto> ''A'']))
   \<and> changelogFile (calls
       [Initialize JSON_parse_changelog, StartSession ''s1'' 1, EndSession 2,
        StartSession ''s2'' 3, RecordBefore ''c1'' 4 ''a.md'' ''A'', WriteNote ''a.md'' ''A1'',
        EndSession 5, RollbackChange ''c1'', Construct, Initialize JSON_parse_changelog]
       (newService [''a.md'' \<mapsto> ''A'']))
     = Some (StorageText \<lparr>version = 1, sessions = []\<rparr>)"
proof -
  let ?cs = "[Initialize JSON_parse_changelog, StartSession ''s1'' 1, EndSession 2,
      StartSession ''s2'' 3, RecordBefore ''c1'' 4 ''a.md'' ''A'', WriteNote ''a.md'' ''A1'',
      EndSession 5, RollbackChange ''c1'', Construct, Initialize JSON_parse_changelog]"
  have a: "list_all (\<lambda>c. \<not> writesChangelogFile c) ?cs"
    by code_simp
  have b: "[''a.md'' \<mapsto> ''A''] changelogPath = None"
    by code_simp
  have c: "changelogFile (calls ?cs (newService [''a.md'' \<mapsto> ''A'']))
     = Some (StorageText \<lparr>version = 1, sessions = []\<rparr>)"
    by code_simp
  from no_empty_session_persisted [OF a, of _ "[''a.md'' \<mapsto> ''A'']"] a b c show ?thesis
    by blast
qed

text \<open>
  C6 as it is worded fails when the changelog file comes from elsewhere. A text with one
  session without changes is written to the changelog file, the service loads it, and a
  session with one change is ended: \<open>endSession\<close> saves the storage, and the changelog
  file holds the session without changes that was loaded. \<open>loadChangelog\<close> takes the
  parsed value as it is, and \<open>endSession\<close> and \<open>rollbackSession\<close> do not filter the
  sessions they save.
\<close>

theorem empty_session_persisted:
  "changelogFile (calls
       [WriteNote changelogPath
          ''{\"version\":1,\"sessions\":[{\"sessionId\":\"s0\",\"startTime\":0,\"changes\":[]}]}'',
        Initialize JSON_parse_changelog,
        StartSession ''s1'' 1, RecordBefore ''c1'' 2 ''a.md'' ''A'', EndSession 3]
       (newService [''a.md'' \<mapsto> ''A'']))
     = Some (StorageText \<lparr>version = 1, sessions =
         [\<lparr>sessionId = ''s0'', startTime = 0, endTime = None, changes = []\<rparr>,
          \<lparr>sessionId = ''s1'', startTime = 1, endTime = Some 3, changes =
             [\<lparr>changeId = ''c1'', timestamp = 2, changeType = content_modified,
               filePath = ''a.md'', description = ''Pending...'', beforeContent = Some ''A'',
               afterContent = None, details = ContentModifiedDetails []\<rparr>]\<rparr>]\<rparr>)
   \<and> \<not> persistedOk (calls
       [WriteNote changelogPath
          ''{\"version\":1,\"sessions\":[{\"sessionId\":\"s0\",\"startTime\":0,\"changes\":[]}]}'',
        Initialize JSON_parse_changelog,
        StartSession ''s1'' 1, RecordBefore ''c1'' 2 ''a.md'' ''A'', EndSession 3]
       (newService [''a.md'' \<mapsto> ''A'']))"
  by code_simp

section \<open>Rolling back one change\<close>

lemma findTarget_append_last:
  assumes "\<forall>s \<in> set ss. find (\<lambda>c. changeId c = cid) (changes s) = None"
      and "find (\<lambda>c. changeId c = cid) (changes e) = Some c"
  shows "findTarget cid (ss @ [e]) = Some (length ss, c)"
  using assms by (induction ss) auto

lemma find_None_fresh:
  "cid \<notin> changeId ` set cs \<Longrightarrow> find (\<lambda>c. changeId c = cid) cs = None"
  by (induction cs) auto

lemma find_filePath_kept:
  "find (\<lambda>c. changeId c = cid) cs = Some c \<Longrightarrow> changeId c = cid \<and> c \<in> set cs"
  by (induction cs) (auto split: if_splits)

lemma rollback_after_endSession:
  assumes cur: "currentSession st = Some cur"
      and found: "find (\<lambda>c. changeId c = cid) (changes cur) = Some c"
      and before: "beforeContent c = Some D" and nonempty: "D \<noteq> []"
      and exists: "vaultFiles st (filePath c) \<noteq> None"
      and apart: "filePath c \<noteq> changelogPath"
      and fresh: "\<forall>s \<in> set (sessions (storage st)). cid \<notin> changeId ` set (changes s)"
  shows "fst (rollbackChange cid (endSession now st))
       \<and> vaultFiles (snd (rollbackChange cid (endSession now st))) (filePath c) = Some D"
proof -
  let ?ended = "cur\<lparr>endTime := Some now\<rparr>"
  let ?pushed = "sessions (storage st) @ [?ended]"
  let ?k = "length ?pushed - MAX_SESSIONS"
  let ?pruned = "if length ?pushed > MAX_SESSIONS then drop ?k ?pushed else ?pushed"
  have ne: "changes cur \<noteq> []"
    using found by auto
  have pruned: "\<exists>ss. ?pruned = ss @ [?ended] \<and> set ss \<subseteq> set (sessions (storage st))"
  proof (cases "length ?pushed > MAX_SESSIONS")
    case True
    then have "?k \<le> length (sessions (storage st))"
      by (simp add: MAX_SESSIONS_def)
    then have "drop ?k ?pushed = drop ?k (sessions (storage st)) @ [?ended]"
      by simp
    with True show ?thesis
      by (metis (no_types, lifting) set_drop_subset)
  next
    case False
    then show ?thesis by auto
  qed
  then obtain ss where ss: "?pruned = ss @ [?ended]" "set ss \<subseteq> set (sessions (storage st))"
    by blast
  have "\<forall>s \<in> set ss. find (\<lambda>c. changeId c = cid) (changes s) = None"
    using ss(2) fresh by (auto intro: find_None_fresh)
  then have target: "findTarget cid ?pruned = Some (length ss, c)"
    unfolding ss(1) using found by (intro findTarget_append_last) auto
  have st': "sessions (storage (endSession now st)) = ?pruned"
    "vaultFiles (endSession now st) = vaultFiles st"
    using cur ne by (auto simp: endSession_def Let_def saveChangelog_def)
  show ?thesis
    using target before nonempty exists apart st'
    by (auto simp: rollbackChange_def truthy_def Let_def saveChangelog_def isFile_def
          setFile_def)
qed

lemma find_updateFirstChange:
  "(\<And>c. changeId (f c) = changeId c) \<Longrightarrow>
     find (\<lambda>c. changeId c = cid) (updateFirstChange cid' f cs)
       = (if cid' = cid then map_option f (find (\<lambda>c. changeId c = cid) cs)
          else find (\<lambda>c. changeId c = cid) cs)"
  by (induction cs) auto

lemma find_append_fresh:
  "cid \<notin> changeId ` set cs \<Longrightarrow> changeId e = cid \<Longrightarrow>
     find (\<lambda>c. changeId c = cid) (cs @ [e]) = Some e"
  by (induction cs) auto

lemma rollback_round_trip:
  assumes cur: "currentSession st = Some cur"
      and fresh_cur: "cid \<notin> changeId ` set (changes cur)"
      and fresh: "\<forall>s \<in> set (sessions (storage st)). cid \<notin> changeId ` set (changes s)"
      and nonempty: "D \<noteq> []"
      and exists: "vaultFiles st path \<noteq> None"
      and apart: "path \<noteq> changelogPath"
      and st': "st' = endSession t2 (recordAfter cid D' ty descr det
                        (writeNote path D' (snd (recordBefore cid t1 path D st))))"
  shows "fst (rollbackChange cid st') \<and> vaultFiles (snd (rollbackChange cid st')) path = Some D"
proof -
  let ?entry = "\<lparr>changeId = cid, timestamp = t1, changeType = content_modified,
                  filePath = path, description = ''Pending...'', beforeContent = Some D,
                  afterContent = None, details = ContentModifiedDetails []\<rparr>"
  let ?f = "\<lambda>c. c\<lparr>afterContent := Some D', changeType := ty, description := descr,
                   details := det\<rparr>"
  let ?st3 = "recordAfter cid D' ty descr det
                (writeNote path D' (snd (recordBefore cid t1 path D st)))"
  let ?cur3 = "cur\<lparr>changes := updateFirstChange cid ?f (changes cur @ [?entry])\<rparr>"
  have c3: "currentSession ?st3 = Some ?cur3"
    using cur by (simp add: recordAfter_def writeNote_def setFile_def recordBefore_def)
  have found: "find (\<lambda>c. changeId c = cid) (changes ?cur3) = Some (?f ?entry)"
    using fresh_cur by (simp add: find_updateFirstChange find_append_fresh)
  have sto: "sessions (storage ?st3) = sessions (storage st)"
    using cur by (simp add: recordAfter_def writeNote_def setFile_def recordBefore_def)
  have ex: "vaultFiles ?st3 (filePath (?f ?entry)) \<noteq> None"
    using cur apart by (simp add: recordAfter_def writeNote_def setFile_def recordBefore_def)
  have nt: "filePath (?f ?entry) \<noteq> changelogPath"
    using apart by simp
  have "fst (rollbackChange cid (endSession t2 ?st3))
        \<and> vaultFiles (snd (rollbackChange cid (endSession t2 ?st3))) (filePath (?f ?entry)) = Some D"
    using fresh nonempty
    by (intro rollback_after_endSession [OF c3 found _ _ ex nt]) (simp_all add: sto)
  then show ?thesis
    by (simp add: st')
qed

text \<open>
  The lemma above is the round trip for a note that is not empty (a note is a file
  other than the changelog file): in an open session,
  \<open>recordBefore\<close> with a fresh id, the write of the patched content, \<open>recordAfter\<close>
  and \<open>endSession\<close>, then \<open>rollbackChange\<close> returns \<open>true\<close> and the note holds the
  recorded content again.

  C2 at the empty note. The note \<open>a.md\<close> is empty; in a session its content is recorded,
  the tag line \<open>#idea\<close> is written to it, the change is completed and the session ended.
  \<open>rollbackChange\<close> on the id of the change returns \<open>false\<close> and the note still holds
  the tag line: the guard \<open>!targetChange.beforeContent\<close> takes the recorded empty string
  for a missing one.
\<close>

theorem rollbackChange_empty_note:
  "fst (rollbackChange ''c1''
     (calls [StartSession ''s1'' 1, RecordBefore ''c1'' 2 ''a.md'' [],
             WriteNote ''a.md'' ''#idea'',
             RecordAfter ''c1'' ''#idea'' tag_added ''Added tags'' (TagAddedDetails ''idea'' inline),
             EndSession 3]
        (newService [''a.md'' \<mapsto> []]))) = False
   \<and> vaultFiles (snd (rollbackChange ''c1''
     (calls [StartSession ''s1'' 1, RecordBefore ''c1'' 2 ''a.md'' [],
             WriteNote ''a.md'' ''#idea'',
             RecordAfter ''c1'' ''#idea'' tag_added ''Added tags'' (TagAddedDetails ''idea'' inline),
             EndSession 3]
        (newService [''a.md'' \<mapsto> []])))) ''a.md'' = Some ''#idea''"
  by code_simp

section \<open>Rolling back a session\<close>

lemma isFile_setFile:
  "truthy content \<Longrightarrow> isFile st path \<Longrightarrow> isFile (setFile path content st) p = isFile st p"
  by (auto simp: truthy_def isFile_def setFile_def split: option.splits)

lemma rollbackLoop_count:
  "rollbackLoop cs (st, n) = (st', n') \<Longrightarrow>
     n' = n + length (filter (\<lambda>c. truthy (beforeContent c) \<and> isFile st (filePath c)) cs)
     \<and> (\<forall>p. isFile st' p = isFile st p)"
proof (induction cs arbitrary: st n)
  case Nil
  then show ?case by simp
next
  case (Cons c cs)
  show ?case
  proof (cases "truthy (beforeContent c) \<and> isFile st (filePath c)")
    case True
    let ?st = "setFile (filePath c) (beforeContent c) st"
    from True Cons.prems have r: "rollbackLoop cs (?st, n + 1) = (st', n')"
      by simp
    have pt: "isFile ?st p = isFile st p" for p
      using True by (simp add: isFile_setFile)
    from Cons.IH [OF r]
    have "n' = n + 1 + length (filter (\<lambda>x. truthy (beforeContent x) \<and> isFile ?st (filePath x)) cs)"
      and "\<forall>p. isFile st' p = isFile ?st p"
      by blast+
    then have "n' = n + 1 + length (filter (\<lambda>x. truthy (beforeContent x) \<and> isFile st (filePath x)) cs)"
      and "\<forall>p. isFile st' p = isFile st p"
      by (simp_all add: pt)
    with True show ?thesis
      by simp
  next
    case False
    with Cons.prems have r: "rollbackLoop cs (st, n) = (st', n')"
      by auto
    from Cons.IH [OF r] False show ?thesis by auto
  qed
qed

lemma rollbackSession_result:
  assumes "getSession sid st = Some session"
  shows "fst (rollbackSession sid st)
           = length (filter (\<lambda>c. truthy (beforeContent c) \<and> isFile st (filePath c))
               (changes session))
       \<and> getSession sid (snd (rollbackSession sid st)) = None
       \<and> changelogFile (snd (rollbackSession sid st))
           = Some (StorageText (storage (snd (rollbackSession sid st))))"
proof -
  obtain st1 n' where l: "rollbackLoop (rev (changes session)) (st, 0) = (st1, n')"
    by (cases "rollbackLoop (rev (changes session)) (st, 0)") auto
  from rollbackLoop_count [OF l]
  have n': "n' = length (filter (\<lambda>c. truthy (beforeContent c) \<and> isFile st (filePath c))
               (changes session))"
    by (simp add: rev_filter [symmetric])
  have gone: "find (\<lambda>s. sessionId s = sid) (filter (\<lambda>s. sessionId s \<noteq> sid) xs) = None"
    for xs :: "ChangelogSession list"
    by (induction xs) auto
  show ?thesis
    using assms l gone
    by (simp add: rollbackSession_def getSession_def saveChangelog_def n' Let_def)
qed

text \<open>
  The lemma above gives the count that \<open>rollbackSession\<close> returns, the removal of the
  session and the save. The scenario of three changes, one of them to a note that was
  deleted since: two notes are restored, the note changed twice holds its first recorded
  content (the changes are undone last first), and the session is gone.
\<close>

lemma rollbackSession_three_changes:
  "fst (rollbackSession ''s1''
     (calls [StartSession ''s1'' 1,
             RecordBefore ''c1'' 2 ''a.md'' ''A'', WriteNote ''a.md'' ''A1'',
             RecordBefore ''c2'' 3 ''b.md'' ''B'', WriteNote ''b.md'' ''B1'',
             RecordBefore ''c3'' 4 ''a.md'' ''A1'', WriteNote ''a.md'' ''A2'',
             EndSession 5, DeleteNote ''b.md'']
        (newService [''a.md'' \<mapsto> ''A'', ''b.md'' \<mapsto> ''B'']))) = 2
   \<and> vaultFiles (snd (rollbackSession ''s1''
     (calls [StartSession ''s1'' 1,
             RecordBefore ''c1'' 2 ''a.md'' ''A'', WriteNote ''a.md'' ''A1'',
             RecordBefore ''c2'' 3 ''b.md'' ''B'', WriteNote ''b.md'' ''B1'',
             RecordBefore ''c3'' 4 ''a.md'' ''A1'', WriteNote ''a.md'' ''A2'',
             EndSession 5, DeleteNote ''b.md'']
        (newService [''a.md'' \<mapsto> ''A'', ''b.md'' \<mapsto> ''B''])))) ''a.md'' = Some ''A''
   \<and> sessions (storage (snd (rollbackSession ''s1''
     (calls [StartSession ''s1'' 1,
             RecordBefore ''c1'' 2 ''a.md'' ''A'', WriteNote ''a.md'' ''A1'',
             RecordBefore ''c2'' 3 ''b.md'' ''B'', WriteNote ''b.md'' ''B1'',
             RecordBefore ''c3'' 4 ''a.md'' ''A1'', WriteNote ''a.md'' ''A2'',
             EndSession 5, DeleteNote ''b.md'']
        (newService [''a.md'' \<mapsto> ''A'', ''b.md'' \<mapsto> ''B'']))))) = []"
  by code_simp

text \<open>
  C7 at the empty note. The session of the empty note \<open>a.md\<close> from above has one change,
  whose \<open>beforeContent\<close> is the empty string. \<open>rollbackSession\<close> returns the count 0
  and the note still holds the tag line: the test \<open>if (change.beforeContent)\<close> skips the
  change as if it had no recorded content.
\<close>

theorem rollbackSession_empty_note:
  "fst (rollbackSession ''s1''
     (calls [StartSession ''s1'' 1, RecordBefore ''c1'' 2 ''a.md'' [],
             WriteNote ''a.md'' ''#idea'',
             RecordAfter ''c1'' ''#idea'' tag_added ''Added tags'' (TagAddedDetails ''idea'' inline),
             EndSession 3]
        (newService [''a.md'' \<mapsto> []]))) = 0
   \<and> vaultFiles (snd (rollbackSession ''s1''
     (calls [StartSession ''s1'' 1, RecordBefore ''c1'' 2 ''a.md'' [],
             WriteNote ''a.md'' ''#idea'',
             RecordAfter ''c1'' ''#idea'' tag_added ''Added tags'' (TagAddedDetails ''idea'' inline),
             EndSession 3]
        (newService [''a.md'' \<mapsto> []])))) ''a.md'' = Some ''#idea''"
  by code_simp

section \<open>Suggestions that cross the oracle boundary\<close>






lemma stringOrEmpty_cases:
  "(\<exists>s. x = Some (JString s) \<and> stringOrEmpty x = s)
   \<or> ((\<forall>s. x \<noteq> Some (JString s)) \<and> stringOrEmpty x = [])"
  by (auto simp: stringOrEmpty_def split: option.splits json.splits)



section \<open>Applying one link suggestion twice\<close>

lemma sortedLinks_single: "sortedLinks content [s] = [s]"
  by (simp add: sortedLinks_def)

lemma applyLinks_single: "applyLinks content [s] = applyLink content s"
  by (simp add: applyLinks_def sortedLinks_single)








section \<open>A suggestion with an empty target text\<close>

lemma tailMatches_iff:
  "tailMatches s \<longleftrightarrow> (\<exists>mid post. s = mid @ '']]'' @ post \<and> CHR '']'' \<notin> set mid)"
proof (induction s)
  case Nil
  then show ?case by simp
next
  case (Cons c cs)
  show ?case
  proof (cases "c = CHR '']''")
    case True
    have "(\<exists>mid post. c # cs = mid @ '']]'' @ post \<and> CHR '']'' \<notin> set mid)
          \<longleftrightarrow> (\<exists>post. c # cs = '']]'' @ post)"
      using True by (auto simp: Cons_eq_append_conv)
    also have "\<dots> \<longleftrightarrow> prefix '']'' cs"
      using True by (auto simp: prefix_def)
    finally show ?thesis using True by simp
  next
    case False
    have "(\<exists>mid post. c # cs = mid @ '']]'' @ post \<and> CHR '']'' \<notin> set mid)
          \<longleftrightarrow> (\<exists>mid post. cs = mid @ '']]'' @ post \<and> CHR '']'' \<notin> set mid)"
      using False by (auto simp: Cons_eq_append_conv) (metis set_ConsD)
    with False Cons.IH show ?thesis by simp
  qed
qed

lemma insideMatches_empty: "insideMatches [] s = tailMatches s"
  by (induction s) (auto simp: toLowerCase_def)

lemma alreadyLinkedRegex_empty_iff:
  "alreadyLinkedRegex [] s \<longleftrightarrow>
     (\<exists>pre mid post. s = pre @ ''[['' @ mid @ '']]'' @ post \<and> CHR '']'' \<notin> set mid)"
proof (induction s)
  case Nil
  then show ?case by simp
next
  case (Cons c cs)
  have here: "(prefix ''[['' (c # cs) \<and> tailMatches (drop 1 cs))
      \<longleftrightarrow> (\<exists>mid post. c # cs = ''[['' @ mid @ '']]'' @ post \<and> CHR '']'' \<notin> set mid)"
  proof
    assume "prefix ''[['' (c # cs) \<and> tailMatches (drop 1 cs)"
    then have r: "c # cs = ''[['' @ drop 1 cs" "tailMatches (drop 1 cs)"
      by (cases cs; simp)+
    then obtain mid post where "drop 1 cs = mid @ '']]'' @ post" "CHR '']'' \<notin> set mid"
      using tailMatches_iff by blast
    with r(1) show "\<exists>mid post. c # cs = ''[['' @ mid @ '']]'' @ post \<and> CHR '']'' \<notin> set mid"
      by metis
  next
    assume "\<exists>mid post. c # cs = ''[['' @ mid @ '']]'' @ post \<and> CHR '']'' \<notin> set mid"
    then obtain mid post where
      e: "c # cs = ''[['' @ mid @ '']]'' @ post" "CHR '']'' \<notin> set mid"
      by blast
    then have "drop 1 cs = mid @ '']]'' @ post"
      by simp
    with e(2) have "tailMatches (drop 1 cs)"
      using tailMatches_iff by blast
    moreover from e(1) have "prefix ''[['' (c # cs)"
      by (simp add: prefix_def)
    ultimately show "prefix ''[['' (c # cs) \<and> tailMatches (drop 1 cs)"
      by blast
  qed
  have split: "(\<exists>pre mid post. c # cs = pre @ ''[['' @ mid @ '']]'' @ post \<and> CHR '']'' \<notin> set mid)
      \<longleftrightarrow> (\<exists>mid post. c # cs = ''[['' @ mid @ '']]'' @ post \<and> CHR '']'' \<notin> set mid)
        \<or> (\<exists>pre mid post. cs = pre @ ''[['' @ mid @ '']]'' @ post \<and> CHR '']'' \<notin> set mid)"
    (is "?L \<longleftrightarrow> ?A \<or> ?B")
  proof
    assume ?L
    then obtain pre mid post where
      e: "c # cs = pre @ ''[['' @ mid @ '']]'' @ post" "CHR '']'' \<notin> set mid"
      by blast
    show "?A \<or> ?B"
    proof (cases pre)
      case Nil
      with e show ?thesis by auto
    next
      case (Cons p pre')
      with e have "cs = pre' @ ''[['' @ mid @ '']]'' @ post" by simp
      with e(2) show ?thesis by blast
    qed
  next
    assume "?A \<or> ?B"
    then show ?L
    proof
      assume ?A
      then show ?L by (metis append_Nil)
    next
      assume ?B
      then obtain pre mid post where
        "cs = pre @ ''[['' @ mid @ '']]'' @ post" "CHR '']'' \<notin> set mid"
        by blast
      then have "c # cs = (c # pre) @ ''[['' @ mid @ '']]'' @ post" by simp
      with \<open>CHR '']'' \<notin> set mid\<close> show ?L by blast
    qed
  qed
  show ?case
    using here split Cons.IH by (simp add: insideMatches_empty)
qed

text \<open>
  C5, as the code has it. A suggestion whose target text is empty is not rejected. The
  empty text matches at offset 0, so \<open>applyLinks\<close> puts the link \<open>[[linkTarget|]]\<close>
  (\<open>[[]]\<close> when the link target is empty too) in front of the content, unless the
  content already holds \<open>[[linkTarget]]\<close> or \<open>[[linkTarget|\<close>, or holds some span
  \<open>[[...]]\<close> without a closing bracket inside; then the content is returned unchanged.
\<close>

theorem empty_targetText_applied:
  assumes "targetText s = []"
  shows "applyLinks D [s] =
     (if str_includes D (''[['' @ linkTarget s @ '']]'')
         \<or> str_includes D (''[['' @ linkTarget s @ ''|'')
         \<or> (\<exists>pre mid post. D = pre @ ''[['' @ mid @ '']]'' @ post \<and> CHR '']'' \<notin> set mid)
      then D
      else ''[['' @ (if linkTarget s = [] then [] else linkTarget s @ ''|'') @ '']]'' @ D)"
proof -
  have idx: "firstIndex [] (toLowerCase D) = Some 0"
    by (cases "toLowerCase D") simp_all
  show ?thesis
    unfolding applyLinks_single applyLink_def alreadyLinkedRegex_empty_iff [symmetric]
    using assms idx by (auto simp: toLowerCase_def)
qed

text \<open>The instance for the content \<open>abc\<close> and the link target \<open>X\<close>.\<close>

theorem empty_targetText_applied_witness:
  "targetText \<lparr>reasoning = [], confidence = Finite 0.9, targetText = [], linkTarget = ''X''\<rparr> = []
   \<and> applyLinks ''abc''
       [\<lparr>reasoning = [], confidence = Finite 0.9, targetText = [], linkTarget = ''X''\<rparr>]
     = ''[[X|]]abc''"
proof -
  let ?s = "\<lparr>reasoning = [], confidence = Finite 0.9, targetText = [], linkTarget = ''X''\<rparr>"
  have h: "targetText ?s = []" by simp
  have no1: "\<not> str_includes ''abc'' (''[['' @ linkTarget ?s @ '']]'')"
    by code_simp
  have no2: "\<not> str_includes ''abc'' (''[['' @ linkTarget ?s @ ''|'')"
    by code_simp
  have no3: "\<not> (\<exists>pre mid post. ''abc'' = pre @ ''[['' @ mid @ '']]'' @ post
                  \<and> CHR '']'' \<notin> set mid)"
  proof
    assume "\<exists>pre mid post. ''abc'' = pre @ ''[['' @ mid @ '']]'' @ post \<and> CHR '']'' \<notin> set mid"
    then obtain pre mid post where "''abc'' = pre @ ''[['' @ mid @ '']]'' @ post"
      by blast
    then have "CHR ''['' \<in> set ''abc''"
      by (metis append_Cons in_set_conv_decomp)
    then show False by simp
  qed
  from empty_targetText_applied [OF h, of "''abc''"] no1 no2 no3
  have "applyLinks ''abc'' [?s] = ''[['' @ (''X'' @ ''|'') @ '']]'' @ ''abc''"
    by simp
  then show ?thesis by simp
qed

text \<open>
  C5, as the specification states it, fails: on the content \<open>abc\<close> the suggestion with
  the empty target text and the link target \<open>X\<close> changes the content.
\<close>

theorem empty_targetText_counterexample:
  "applyLinks ''abc''
     [\<lparr>reasoning = [], confidence = Finite 0.9, targetText = [], linkTarget = ''X''\<rparr>] \<noteq> ''abc''"
  by code_simp

section \<open>Parsing the oracle's response\<close>

lemma jsonMatch_block:
  assumes "CHR ''{'' \<notin> set pre" and "CHR ''}'' \<notin> set post"
  shows "jsonMatch (pre @ ''{'' @ body @ ''}'' @ post) = Some (''{'' @ body @ ''}'')"
proof -
  have a: "dropWhile (\<lambda>c. c \<noteq> CHR ''{'') (pre @ ''{'' @ body @ ''}'' @ post)
             = ''{'' @ body @ ''}'' @ post"
    using assms(1) by (induction pre) auto
  have b: "dropWhile (\<lambda>c. c \<noteq> CHR ''}'') (rev post @ ''}'' @ rev body) = ''}'' @ rev body"
    using assms(2) by (induction post) (auto simp: dropWhile_append)
  show ?thesis
    unfolding jsonMatch_def a Let_def using b by simp
qed

lemma jsonMatch_Some:
  assumes "jsonMatch text = Some m"
  shows "\<exists>pre body post. text = pre @ ''{'' @ body @ ''}'' @ post"
proof -
  let ?fromBrace = "dropWhile (\<lambda>c. c \<noteq> CHR ''{'') text"
  let ?r = "rev (drop 1 ?fromBrace)"
  let ?d = "dropWhile (\<lambda>c. c \<noteq> CHR ''}'') ?r"
  let ?t = "takeWhile (\<lambda>c. c \<noteq> CHR ''}'') ?r"
  from assms have ne: "?fromBrace \<noteq> []" "?d \<noteq> []"
    by (auto simp: jsonMatch_def Let_def split: if_splits)
  from ne(1) have "hd ?fromBrace = CHR ''{''"
    using hd_dropWhile [of "\<lambda>c. c \<noteq> CHR ''{''" "text"] by simp
  with ne(1) have fb: "?fromBrace = CHR ''{'' # drop 1 ?fromBrace"
    by (cases ?fromBrace) auto
  from ne(2) have "hd ?d = CHR ''}''"
    using hd_dropWhile [of "\<lambda>c. c \<noteq> CHR ''}''" ?r] by simp
  with ne(2) have d: "?d = CHR ''}'' # tl ?d"
    by (cases ?d) auto
  have "?r = ?t @ ?d"
    by simp
  then have "rev ?r = rev (?t @ CHR ''}'' # tl ?d)"
    using d by simp
  then have rest: "drop 1 ?fromBrace = rev (tl ?d) @ CHR ''}'' # rev ?t"
    by simp
  have "text = takeWhile (\<lambda>c. c \<noteq> CHR ''{'') text @ ?fromBrace"
    by simp
  then have "text = takeWhile (\<lambda>c. c \<noteq> CHR ''{'') text
                 @ ''{'' @ rev (tl ?d) @ ''}'' @ rev ?t"
    using fb rest by simp
  then show ?thesis
    by blast
qed

text \<open>
  C9, as the code has it, for every \<open>JSON.parse\<close>. The text handed to \<open>JSON.parse\<close>
  is the span from the first opening brace of the response to its last closing brace:
  prose before the block is tolerated when it has no opening brace, prose behind it when
  it has no closing brace, and then the result is the validated value of the block, or
  the empty result when \<open>JSON.parse\<close> or the validation throws. A response without an
  opening brace that is followed by a closing one, and a response whose span
  \<open>JSON.parse\<close> rejects, give the empty result. No case raises an error: the function
  returns a result on every response.
\<close>

theorem parseAnalysisResponse_span:
  "(\<forall>pre body post. CHR ''{'' \<notin> set pre \<and> CHR ''}'' \<notin> set post \<longrightarrow>
      parseAnalysisResponse JSON_parse (pre @ ''{'' @ body @ ''}'' @ post)
        = (case JSON_parse (''{'' @ body @ ''}'') of
             None \<Rightarrow> emptyResult
           | Some parsed \<Rightarrow> (case validated parsed of Inl e \<Rightarrow> emptyResult | Inr r \<Rightarrow> r)))
   \<and> (\<forall>response. (\<nexists>pre body post. response = pre @ ''{'' @ body @ ''}'' @ post) \<longrightarrow>
        parseAnalysisResponse JSON_parse response = emptyResult)
   \<and> (\<forall>response. (\<forall>m. jsonMatch response = Some m \<longrightarrow> JSON_parse m = None) \<longrightarrow>
        parseAnalysisResponse JSON_parse response = emptyResult)"
proof (intro conjI allI impI)
  fix pre body post :: string
  assume "CHR ''{'' \<notin> set pre \<and> CHR ''}'' \<notin> set post"
  then have "jsonMatch (pre @ ''{'' @ body @ ''}'' @ post) = Some (''{'' @ body @ ''}'')"
    by (intro jsonMatch_block) auto
  then show "parseAnalysisResponse JSON_parse (pre @ ''{'' @ body @ ''}'' @ post)
        = (case JSON_parse (''{'' @ body @ ''}'') of
             None \<Rightarrow> emptyResult
           | Some parsed \<Rightarrow> (case validated parsed of Inl e \<Rightarrow> emptyResult | Inr r \<Rightarrow> r))"
    by (simp add: parseAnalysisResponse_def tryParse_def split: option.splits)
next
  fix response :: string
  assume "\<nexists>pre body post. response = pre @ ''{'' @ body @ ''}'' @ post"
  then have "jsonMatch response = None"
    using jsonMatch_Some [of response] by (cases "jsonMatch response") auto
  then show "parseAnalysisResponse JSON_parse response = emptyResult"
    by (simp add: parseAnalysisResponse_def tryParse_def)
next
  fix response :: string
  assume "\<forall>m. jsonMatch response = Some m \<longrightarrow> JSON_parse m = None"
  then show "parseAnalysisResponse JSON_parse response = emptyResult"
    by (cases "jsonMatch response") (auto simp: parseAnalysisResponse_def tryParse_def)
qed

text \<open>
  The three cases at work: a block inside prose, a response without a block, and two
  blocks in one response, whose span from the first to the last brace is no JSON text.
\<close>

theorem parseAnalysisResponse_span_witness:
  "CHR ''{'' \<notin> set ''Here: '' \<and> CHR ''}'' \<notin> set '' done.''
   \<and> parseAnalysisResponse JSON_parse_scenario ''Here: {\"summary\":\"a\"} done.''
       = \<lparr>suggestedLinks = [], suggestedTags = [], keyConcepts = [], summary = ''a''\<rparr>
   \<and> parseAnalysisResponse JSON_parse_scenario ''no block'' = emptyResult
   \<and> jsonMatch ''{a} {b}'' = Some ''{a} {b}''
   \<and> JSON_parse_scenario ''{a} {b}'' = None
   \<and> parseAnalysisResponse JSON_parse_scenario ''{a} {b}'' = emptyResult"
proof -
  note span = parseAnalysisResponse_span [of JSON_parse_scenario]
  have h1: "CHR ''{'' \<notin> set ''Here: '' \<and> CHR ''}'' \<notin> set '' done.''"
    by simp
  have v: "(case JSON_parse_scenario (''{'' @ ''\"summary\":\"a\"'' @ ''}'') of
             None \<Rightarrow> emptyResult
           | Some parsed \<Rightarrow> (case validated parsed of Inl e \<Rightarrow> emptyResult | Inr r \<Rightarrow> r))
           = \<lparr>suggestedLinks = [], suggestedTags = [], keyConcepts = [], summary = ''a''\<rparr>"
    by code_simp
  from span h1
  have "parseAnalysisResponse JSON_parse_scenario
          (''Here: '' @ ''{'' @ ''\"summary\":\"a\"'' @ ''}'' @ '' done.'')
        = (case JSON_parse_scenario (''{'' @ ''\"summary\":\"a\"'' @ ''}'') of
             None \<Rightarrow> emptyResult
           | Some parsed \<Rightarrow> (case validated parsed of Inl e \<Rightarrow> emptyResult | Inr r \<Rightarrow> r))"
    by blast
  then have r1: "parseAnalysisResponse JSON_parse_scenario ''Here: {\"summary\":\"a\"} done.''
       = \<lparr>suggestedLinks = [], suggestedTags = [], keyConcepts = [], summary = ''a''\<rparr>"
    unfolding v by simp
  have h2: "\<nexists>pre body post. ''no block'' = pre @ ''{'' @ body @ ''}'' @ post"
  proof
    assume "\<exists>pre body post. ''no block'' = pre @ ''{'' @ body @ ''}'' @ post"
    then obtain pre body post where "''no block'' = pre @ ''{'' @ body @ ''}'' @ post"
      by blast
    then have "CHR ''{'' \<in> set ''no block''"
      by (metis append_Cons in_set_conv_decomp)
    then show False by simp
  qed
  from span h2 have r2: "parseAnalysisResponse JSON_parse_scenario ''no block'' = emptyResult"
    by blast
  have m: "jsonMatch ''{a} {b}'' = Some ''{a} {b}''"
    by code_simp
  have h3: "\<forall>m. jsonMatch ''{a} {b}'' = Some m \<longrightarrow> JSON_parse_scenario m = None"
    unfolding m by (simp add: JSON_parse_scenario_def)
  from span h3 have r3: "parseAnalysisResponse JSON_parse_scenario ''{a} {b}'' = emptyResult"
    by blast
  have n: "JSON_parse_scenario ''{a} {b}'' = None"
    by (simp add: JSON_parse_scenario_def)
  show ?thesis
    using h1 r1 r2 m n r3 by blast
qed

text \<open>
  C9, as the specification states it, fails. In the response \<open>{"summary":"a"} {}\<close> the
  first well-formed block is \<open>{"summary":"a"}\<close>, whose summary is \<open>a\<close>; the code hands
  the whole response to \<open>JSON.parse\<close>, which throws, and returns the empty result.
\<close>

theorem parseAnalysisResponse_not_first_block:
  "parseAnalysisResponse JSON_parse_scenario ''{\"summary\":\"a\"} {}''
     \<noteq> firstBlockResult JSON_parse_scenario ''{\"summary\":\"a\"} {}''"
  by code_simp

lemma parseAnalysisResponse_scenario_values:
  "parseAnalysisResponse JSON_parse_scenario ''{\"summary\":\"a\"} {}'' = emptyResult"
  "firstBlockResult JSON_parse_scenario ''{\"summary\":\"a\"} {}''
     = \<lparr>suggestedLinks = [], suggestedTags = [], keyConcepts = [], summary = ''a''\<rparr>"
  by code_simp+

section \<open>Applying tag suggestions twice\<close>





declare inlineTagMatches.simps(2) [simp del]










































































text \<open>
  The scenario of the note without a header block: the tag \<open>#idea\<close> for the header of
  \<open>Some text\<close> creates the block with \<open>tags: [idea]\<close> in front of the text.
\<close>

lemma applyTags_creates_header:
  "applyTags ''Some text''
     [\<lparr>reasoning = [], confidence = Finite 0.8, tag = ''#idea'', location = frontmatter\<rparr>]
   = ''---\<newline>tags: [idea]\<newline>---\<newline>\<newline>Some text''"
  by code_simp


lemma applyTags_not_idempotent_values:
  "applyTags ''x'' [\<lparr>reasoning = [], confidence = Finite 0.8, tag = ''2024'', location = inline\<rparr>]
     = ''x\<newline>\<newline>#2024''"
  "applyTags ''x\<newline>\<newline>#2024''
     [\<lparr>reasoning = [], confidence = Finite 0.8, tag = ''2024'', location = inline\<rparr>]
     = ''x\<newline>\<newline>#2024\<newline>\<newline>#2024''"
  by code_simp+

text \<open>
  With a header block in the content, well-formed names are not enough. The header line
  \<open>tags: #foo\<close> holds the inline tag \<open>foo\<close>, so the first run skips the suggestion
  \<open>foo\<close>; it adds \<open>new\<close> and rewrites the line to \<open>tags: [#foo, new]\<close>, where
  \<open>#foo\<close> follows a bracket and is no inline tag any more, and the second run adds
  \<open>foo\<close>.
\<close>

lemma applyTags_header_not_idempotent:
  "applyTags ''---\<newline>tags: #foo\<newline>---\<newline>body''
     [\<lparr>reasoning = [], confidence = Finite 0.8, tag = ''foo'', location = frontmatter\<rparr>,
      \<lparr>reasoning = [], confidence = Finite 0.8, tag = ''new'', location = frontmatter\<rparr>]
     = ''---\<newline>tags: [#foo, new]\<newline>---\<newline>body''"
  "applyTags ''---\<newline>tags: [#foo, new]\<newline>---\<newline>body''
     [\<lparr>reasoning = [], confidence = Finite 0.8, tag = ''foo'', location = frontmatter\<rparr>,
      \<lparr>reasoning = [], confidence = Finite 0.8, tag = ''new'', location = frontmatter\<rparr>]
     = ''---\<newline>tags: [#foo, new, foo]\<newline>---\<newline>body''"
  by code_simp+

text \<open>
  Nor are they enough when the header block holds a \<open>$\<close>. The block is put back with
  \<open>replace\<close>, which reads \<open>$&\<close> in the replacement text as the matched block: the
  first run writes the old block into the new one, the new tags line ends up behind the
  end of the header block, and the second run adds the tag again.
\<close>

lemma applyTags_dollar_not_idempotent:
  "applyTags ''---\<newline>a: $&\<newline>---\<newline>body''
     [\<lparr>reasoning = [], confidence = Finite 0.8, tag = ''idea'', location = frontmatter\<rparr>]
     = ''---\<newline>a: ---\<newline>a: $&\<newline>---\<newline>tags: [idea]\<newline>---\<newline>body''"
  "applyTags ''---\<newline>a: ---\<newline>a: $&\<newline>---\<newline>tags: [idea]\<newline>---\<newline>body''
     [\<lparr>reasoning = [], confidence = Finite 0.8, tag = ''idea'', location = frontmatter\<rparr>]
     = ''---\<newline>a: ---\<newline>a: ---\<newline>a: ---\<newline>a: $&\<newline>---\<newline>tags: [idea]\<newline>---\<newline>tags: [idea]\<newline>---\<newline>body''"
  by code_simp+

end
